theory Spec2Isabelle
  imports Complex_Main
begin

section \<open>JavaScript \<open>Map\<close>: an insertion-ordered table\<close>

text \<open>
  A JavaScript \<open>Map\<close> keeps its keys in insertion order: \<open>set\<close> on a key that is
  present replaces the value in place, \<open>set\<close> on a new key appends it, \<open>delete\<close>
  removes the key, \<open>keys().next().value\<close> is the oldest inserted key that is still
  there. Both caches of the repository are such maps keyed by strings, so they are
  modelled as association lists in insertion order.
\<close>

type_synonym ('k, 'v) jsmap = "('k \<times> 'v) list"

definition map_get :: "('k, 'v) jsmap \<Rightarrow> 'k \<Rightarrow> 'v option" where
  "map_get m k = map_of m k"

fun map_set :: "'k \<Rightarrow> 'v \<Rightarrow> ('k, 'v) jsmap \<Rightarrow> ('k, 'v) jsmap" where
  "map_set k v [] = [(k, v)]"
| "map_set k v ((k', v') # m) =
     (if k' = k then (k, v) # m else (k', v') # map_set k v m)"

definition map_delete :: "'k \<Rightarrow> ('k, 'v) jsmap \<Rightarrow> ('k, 'v) jsmap" where
  "map_delete k m = filter (\<lambda>e. fst e \<noteq> k) m"

definition map_size :: "('k, 'v) jsmap \<Rightarrow> nat" where
  "map_size m = length m"

definition map_keys :: "('k, 'v) jsmap \<Rightarrow> 'k list" where
  "map_keys m = map fst m"

text \<open>JavaScript truthiness of an optional string: \<open>undefined\<close> and \<open>""\<close> are falsy.\<close>

definition or_else :: "string option \<Rightarrow> string \<Rightarrow> string" where
  "or_else s d = (case s of None \<Rightarrow> d | Some x \<Rightarrow> (if x = [] then d else x))"

section \<open>TranslationHelper.js: the provider dispatcher\<close>

record TranslationResult =
  originalText :: string
  translatedText :: string
  pinyin :: "string option"
  tones :: "nat list option"
  confidence :: real
  provider :: string
  detectedLanguage :: string
  timestamp :: int

record TranslationProvider =
  name :: string
  enabled :: bool
  priority :: int

record TranslationHelper =
  translationCache :: "(string, TranslationResult) jsmap"
  MAX_CACHE_SIZE :: nat
  providers :: "TranslationProvider list"

text \<open>The field initialisers of the class.\<close>

definition TranslationHelper_new :: TranslationHelper where
  "TranslationHelper_new =
     \<lparr> translationCache = [],
       MAX_CACHE_SIZE = 1000,
       providers =
         [\<lparr> name = ''gemini'', enabled = True, priority = 1 \<rparr>,
          \<lparr> name = ''google'', enabled = True, priority = 2 \<rparr>,
          \<lparr> name = ''offline'', enabled = True, priority = 3 \<rparr>] \<rparr>"

text \<open>
  What a call of a provider method does as seen by \<open>translateText\<close>: it throws, it
  returns \<open>null\<close>, or it returns a result object.
\<close>

datatype outcome = Throws | Null | Returns TranslationResult

text \<open>
  \<open>translateWithGemini\<close> and \<open>translateWithGoogle\<close> wrap a remote model and a web
  service. They are parameters of the model (any outcome is allowed, which covers what the
  two methods can do), together with the readings of \<open>Date.now()\<close>: \<open>now w k\<close> is the
  \<open>k\<close>-th reading made by \<open>translateText\<close> and \<open>translateOffline\<close> during one call.
\<close>

record world =
  translateWithGemini :: "string \<Rightarrow> string \<Rightarrow> string option \<Rightarrow> outcome"
  translateWithGoogle :: "string \<Rightarrow> string \<Rightarrow> string option \<Rightarrow> outcome"
  now :: "nat \<Rightarrow> int"

definition translateOffline :: "int \<Rightarrow> string \<Rightarrow> string \<Rightarrow> string option \<Rightarrow> TranslationResult" where
  "translateOffline t text targetLanguage sourceLanguage =
     \<lparr> originalText = text,
       translatedText = ''[OFFLINE] '' @ text,
       pinyin = None,
       tones = None,
       confidence = 0.3,
       provider = ''offline'',
       detectedLanguage = or_else sourceLanguage ''unknown'',
       timestamp = t \<rparr>"

text \<open>
  The \<open>switch (provider.name)\<close> of the loop body; a name outside the three cases leaves
  \<open>result\<close> at \<open>null\<close>. The second component is the number of clock readings made so far.
\<close>

definition invoke :: "world \<Rightarrow> string \<Rightarrow> string \<Rightarrow> string \<Rightarrow> string option \<Rightarrow> nat \<Rightarrow> outcome \<times> nat" where
  "invoke w n text targetLanguage sourceLanguage k =
     (if n = ''gemini'' then (translateWithGemini w text targetLanguage sourceLanguage, k)
      else if n = ''google'' then (translateWithGoogle w text targetLanguage sourceLanguage, k)
      else if n = ''offline'' then
        (Returns (translateOffline (now w k) text targetLanguage sourceLanguage), Suc k)
      else (Null, k))"

text \<open>
  The \<open>for\<close> loop of \<open>translateText\<close> over the sorted provider list. It returns the
  accepted result if there is one, the names of the providers it invoked, in order, and
  the number of clock readings made.
\<close>

fun try_providers ::
  "world \<Rightarrow> string \<Rightarrow> string \<Rightarrow> string option \<Rightarrow> TranslationProvider list \<Rightarrow> nat
     \<Rightarrow> TranslationResult option \<times> string list \<times> nat" where
  "try_providers w text tgt src [] k = (None, [], k)"
| "try_providers w text tgt src (p # ps) k =
     (if \<not> enabled p then try_providers w text tgt src ps k
      else
        (case invoke w (name p) text tgt src k of
           (Returns r, k') \<Rightarrow>
             (if confidence r > 0.5 then (Some r, [name p], k')
              else (case try_providers w text tgt src ps k' of
                      (res, tr, k'') \<Rightarrow> (res, name p # tr, k'')))
         | (_, k') \<Rightarrow>
             (case try_providers w text tgt src ps k' of
                (res, tr, k'') \<Rightarrow> (res, name p # tr, k''))))"

definition cacheTranslation :: "string \<Rightarrow> TranslationResult \<Rightarrow> TranslationHelper \<Rightarrow> TranslationHelper" where
  "cacheTranslation key result s =
     (let c = translationCache s;
          c1 = (if map_size c \<ge> MAX_CACHE_SIZE s
                then (case map_keys c of [] \<Rightarrow> c | firstKey # _ \<Rightarrow> map_delete firstKey c)
                else c)
      in s\<lparr> translationCache := map_set key result c1 \<rparr>)"

definition cacheKey :: "string \<Rightarrow> string \<Rightarrow> string option \<Rightarrow> string" where
  "cacheKey text targetLanguage sourceLanguage =
     text @ ''-'' @ targetLanguage @ ''-'' @ or_else sourceLanguage ''auto''"

definition fallback :: "int \<Rightarrow> string \<Rightarrow> string option \<Rightarrow> TranslationResult" where
  "fallback t text sourceLanguage =
     \<lparr> originalText = text,
       translatedText = text,
       pinyin = None,
       tones = None,
       confidence = 0,
       provider = ''offline'',
       detectedLanguage = or_else sourceLanguage ''unknown'',
       timestamp = t \<rparr>"

text \<open>
  \<open>translateText(text, targetLanguage = 'en', sourceLanguage)\<close>. The result is the new
  state of the helper (the cache, and the provider list that \<open>sort\<close> reorders in place),
  the returned object, and the names of the providers invoked.
\<close>

definition translateText ::
  "world \<Rightarrow> TranslationHelper \<Rightarrow> string \<Rightarrow> string option \<Rightarrow> string option
     \<Rightarrow> TranslationHelper \<times> TranslationResult \<times> string list" where
  "translateText w s text targetLanguage sourceLanguage =
     (let tgt = (case targetLanguage of None \<Rightarrow> ''en'' | Some t \<Rightarrow> t);
          key = cacheKey text tgt sourceLanguage
      in case map_get (translationCache s) key of
           Some r \<Rightarrow> (s, r, [])
         | None \<Rightarrow>
             (let ps = sort_key priority (providers s);
                  s1 = s\<lparr> providers := ps \<rparr>
              in case try_providers w text tgt sourceLanguage ps 0 of
                   (Some r, tr, k) \<Rightarrow> (cacheTranslation key r s1, r, tr)
                 | (None, tr, k) \<Rightarrow> (s1, fallback (now w k) text sourceLanguage, tr)))"

text \<open>\<open>find\<close> returns the first provider with the name; its flag is assigned in place.\<close>

fun set_first :: "string \<Rightarrow> bool \<Rightarrow> TranslationProvider list \<Rightarrow> TranslationProvider list" where
  "set_first n e [] = []"
| "set_first n e (p # ps) =
     (if name p = n then p\<lparr> enabled := e \<rparr> # ps else p # set_first n e ps)"

definition setProviderEnabled :: "string \<Rightarrow> bool \<Rightarrow> TranslationHelper \<Rightarrow> TranslationHelper" where
  "setProviderEnabled providerName e s = s\<lparr> providers := set_first providerName e (providers s) \<rparr>"

definition clearCache :: "TranslationHelper \<Rightarrow> TranslationHelper" where
  "clearCache s = s\<lparr> translationCache := [] \<rparr>"

text \<open>\<open>cleanup\<close> terminates the OCR worker, which is not part of the model, and clears the cache.\<close>

definition cleanup :: "TranslationHelper \<Rightarrow> TranslationHelper" where
  "cleanup s = s\<lparr> translationCache := [] \<rparr>"

text \<open>
  The calls a client can make on a \<open>TranslationHelper\<close> that touch the cache or the
  provider list, and a run of such calls one after the other: a call has returned before
  the next one starts (two calls of \<open>translateText\<close> suspended in their \<open>await\<close>s at the
  same time are not modelled). \<open>Put\<close> is a direct call of the private \<open>cacheTranslation\<close>.
\<close>

datatype call =
    Translate world string "string option" "string option"
  | SetProviderEnabled string bool
  | ClearCache
  | Cleanup

fun exec :: "call \<Rightarrow> TranslationHelper \<Rightarrow> TranslationHelper" where
  "exec (Translate w text targetLanguage sourceLanguage) s =
     fst (translateText w s text targetLanguage sourceLanguage)"
| "exec (SetProviderEnabled n e) s = setProviderEnabled n e s"
| "exec ClearCache s = clearCache s"
| "exec Cleanup s = cleanup s"

datatype op = Call call | Put string TranslationResult

fun apply_op :: "op \<Rightarrow> TranslationHelper \<Rightarrow> TranslationHelper" where
  "apply_op (Call c) s = exec c s"
| "apply_op (Put key r) s = cacheTranslation key r s"

text \<open>
  Notions used to state what the dispatcher does. A provider \<open>accepts\<close> a request when its
  method returns a result with confidence above 0.5 (the readings of the clock only set
  the time stamp of a result). The \<open>candidates\<close> are the enabled providers in the order of
  the sorted list.
\<close>

definition accepts :: "world \<Rightarrow> string \<Rightarrow> string \<Rightarrow> string option \<Rightarrow> TranslationProvider \<Rightarrow> bool" where
  "accepts w text targetLanguage sourceLanguage p =
     (case fst (invoke w (name p) text targetLanguage sourceLanguage 0) of
        Returns r \<Rightarrow> confidence r > 0.5
      | _ \<Rightarrow> False)"

definition candidates :: "TranslationHelper \<Rightarrow> TranslationProvider list" where
  "candidates s = filter enabled (sort_key priority (providers s))"

definition target_or_en :: "string option \<Rightarrow> string" where
  "target_or_en targetLanguage = (case targetLanguage of None \<Rightarrow> ''en'' | Some t \<Rightarrow> t)"

definition sorted_providers :: "TranslationHelper \<Rightarrow> TranslationHelper" where
  "sorted_providers s = s\<lparr> providers := sort_key priority (providers s) \<rparr>"

text \<open>
  Two worlds. In \<open>world_down\<close> Gemini is not configured (\<open>translateWithGemini\<close> returns
  \<open>null\<close> when there is no API key) and the request to Google fails (\<open>translateWithGoogle\<close>
  catches the error and returns \<open>null\<close>). In \<open>world_google\<close> Gemini is not configured
  and Google answers; \<open>translateWithGoogle\<close> gives its results the confidence 0.7.
\<close>

definition world_down :: world where
  "world_down = \<lparr> translateWithGemini = (\<lambda>t tl sl. Null),
                  translateWithGoogle = (\<lambda>t tl sl. Null),
                  now = (\<lambda>k. int k) \<rparr>"

definition world_google :: world where
  "world_google = \<lparr> translateWithGemini = (\<lambda>t tl sl. Null),
                    translateWithGoogle = (\<lambda>t tl sl. Returns
                       \<lparr> originalText = t, translatedText = ''hello'', pinyin = None, tones = None,
                         confidence = 0.7, provider = ''google'',
                         detectedLanguage = or_else sl ''unknown'', timestamp = 0 \<rparr>),
                    now = (\<lambda>k. int k) \<rparr>"

section \<open>FastTranslationHelper.js: the local-model translator\<close>

text \<open>
  A \<open>FastTranslationResult\<close> has the fields of a \<open>TranslationResult\<close> (its \<open>pinyin\<close>
  and \<open>tones\<close> are never set by this class) and two more.
\<close>

record FastTranslationResult = TranslationResult +
  latency :: int
  isSubtitle :: bool

record CachedTranslation =
  result :: FastTranslationResult
  accessCount :: nat
  lastAccessed :: int

record PerformanceStats =
  totalTranslations :: nat
  cacheHits :: nat
  avgLatency :: real
  modelLoadTime :: int

text \<open>
  A loaded translation pipeline is a function of the text (and, for M2M-100, of the two
  language codes). A call throws (which includes an empty result array, on which
  \<open>result[0].translation_text\<close> throws), or yields \<open>result[0].translation_text\<close> and
  \<open>result[0].score\<close>, which may be absent.
\<close>

datatype model_outcome = ModelThrows | ModelReturns string "real option"

record FastTranslationHelper =
  m2m100Translator :: "(string \<Rightarrow> string \<Rightarrow> string \<Rightarrow> model_outcome) option"
  marianTranslators :: "(string, string \<Rightarrow> model_outcome) jsmap"
  translationCache_fast :: "(string, CachedTranslation) jsmap"
  isInitialized :: bool
  performanceStats :: PerformanceStats

definition FastTranslationHelper_new :: FastTranslationHelper where
  "FastTranslationHelper_new =
     \<lparr> m2m100Translator = None,
       marianTranslators = [],
       translationCache_fast = [],
       isInitialized = False,
       performanceStats =
         \<lparr> totalTranslations = 0, cacheHits = 0, avgLatency = 0, modelLoadTime = 0 \<rparr> \<rparr>"

definition supportedLanguages :: "(string, string) jsmap" where
  "supportedLanguages =
     [(''zh'', ''zh''), (''en'', ''en''), (''ja'', ''ja''), (''ko'', ''ko''), (''es'', ''es''),
      (''fr'', ''fr''), (''de'', ''de''), (''it'', ''it''), (''pt'', ''pt''), (''ru'', ''ru''),
      (''ar'', ''ar''), (''hi'', ''hi''), (''th'', ''th''), (''vi'', ''vi'')]"

text \<open>\<open>score || d\<close>: an absent score and the score \<open>0\<close> are falsy.\<close>

definition score_or :: "real option \<Rightarrow> real \<Rightarrow> real" where
  "score_or sc d = (case sc of None \<Rightarrow> d | Some x \<Rightarrow> (if x = 0 then d else x))"

definition createTranslationResult ::
  "FastTranslationHelper \<Rightarrow> string \<Rightarrow> string \<Rightarrow> string \<Rightarrow> string \<Rightarrow> string \<Rightarrow> real \<Rightarrow> int \<Rightarrow> int
     \<Rightarrow> FastTranslationHelper \<times> FastTranslationResult" where
  "createTranslationResult s originalText' translatedText' sourceLanguage targetLanguage
       provider' confidence' latency' t =
     (let st = performanceStats s;
          n = totalTranslations st + 1;
          st' = st\<lparr> totalTranslations := n,
                    avgLatency := (avgLatency st + real_of_int latency') / real n \<rparr>
      in (s\<lparr> performanceStats := st' \<rparr>,
          \<lparr> originalText = originalText',
            translatedText = translatedText',
            pinyin = None,
            tones = None,
            confidence = confidence',
            provider = provider',
            detectedLanguage = sourceLanguage,
            timestamp = t,
            latency = latency',
            isSubtitle = True \<rparr>))"

text \<open>
  \<open>cacheTranslation\<close> of the fast helper, with its local constant \<open>MAX_CACHE_SIZE\<close> as a
  parameter. The entries are sorted by \<open>lastAccessed\<close> (\<open>Array.prototype.sort\<close> is stable)
  and the keys of the first \<open>Math.floor(MAX_CACHE_SIZE * 0.2)\<close> of them are deleted. The
  sorted array has at least \<open>MAX_CACHE_SIZE\<close> elements when the branch is taken, so no
  index of the loop is out of range.
\<close>

definition cacheTranslation_with ::
  "nat \<Rightarrow> int \<Rightarrow> string \<Rightarrow> FastTranslationResult \<Rightarrow> FastTranslationHelper \<Rightarrow> FastTranslationHelper" where
  "cacheTranslation_with cap t key r s =
     (let c = translationCache_fast s;
          c1 = (if map_size c \<ge> cap
                then (let sortedEntries = sort_key (\<lambda>e. lastAccessed (snd e)) c;
                          toRemove = nat \<lfloor>real cap * 0.2\<rfloor>
                      in fold (\<lambda>e m. map_delete (fst e) m) (take toRemove sortedEntries) c)
                else c)
      in s\<lparr> translationCache_fast :=
              map_set key \<lparr> result = r, accessCount = 1, lastAccessed = t \<rparr> c1 \<rparr>)"

definition MAX_CACHE_SIZE_fast :: nat where
  "MAX_CACHE_SIZE_fast = 2000"

definition cacheTranslation_fast ::
  "int \<Rightarrow> string \<Rightarrow> FastTranslationResult \<Rightarrow> FastTranslationHelper \<Rightarrow> FastTranslationHelper" where
  "cacheTranslation_fast = cacheTranslation_with MAX_CACHE_SIZE_fast"

definition cacheKey_fast :: "string \<Rightarrow> string \<Rightarrow> string \<Rightarrow> string" where
  "cacheKey_fast text sourceLanguage targetLanguage =
     text @ ''|'' @ sourceLanguage @ ''|'' @ targetLanguage"

text \<open>
  What the \<open>try\<close> block does once a model has answered: a result is built, cached and
  returned; a throw lands in the \<open>catch\<close>, which builds the fallback result (provider
  \<open>cache\<close>, confidence \<open>0.1\<close>) and does not cache it. \<open>clock k\<close> is the \<open>k\<close>-th reading
  of \<open>Date.now()\<close> during the call.
\<close>

definition after_model ::
  "(nat \<Rightarrow> int) \<Rightarrow> FastTranslationHelper \<Rightarrow> string \<Rightarrow> string \<Rightarrow> string \<Rightarrow> string \<Rightarrow> real
     \<Rightarrow> model_outcome \<Rightarrow> FastTranslationHelper \<times> FastTranslationResult" where
  "after_model clock s text sourceLanguage targetLanguage prov dflt out =
     (case out of
        ModelReturns translation_text score \<Rightarrow>
          (case createTranslationResult s text translation_text sourceLanguage targetLanguage
                  prov (score_or score dflt) (clock 1 - clock 0) (clock 2) of
             (s1, translationResult) \<Rightarrow>
               (cacheTranslation_fast (clock 3)
                  (cacheKey_fast text sourceLanguage targetLanguage) translationResult s1,
                translationResult))
      | ModelThrows \<Rightarrow>
          createTranslationResult s text text sourceLanguage targetLanguage
            ''cache'' 0.1 (clock 1 - clock 0) (clock 2))"

text \<open>
  \<open>translateText(text, sourceLanguage, targetLanguage)\<close> of the fast helper: the new
  state, the returned object, and the models invoked.
\<close>

definition translateText_fast ::
  "(nat \<Rightarrow> int) \<Rightarrow> FastTranslationHelper \<Rightarrow> string \<Rightarrow> string \<Rightarrow> string
     \<Rightarrow> FastTranslationHelper \<times> FastTranslationResult \<times> string list" where
  "translateText_fast clock s text sourceLanguage targetLanguage =
     (let startTime = clock 0;
          key = cacheKey_fast text sourceLanguage targetLanguage
      in case map_get (translationCache_fast s) key of
           Some cached \<Rightarrow>
             (let cached' = cached\<lparr> accessCount := accessCount cached + 1,
                                    lastAccessed := clock 1 \<rparr>;
                  st = performanceStats s
              in (s\<lparr> translationCache_fast := map_set key cached' (translationCache_fast s),
                     performanceStats := st\<lparr> cacheHits := cacheHits st + 1 \<rparr> \<rparr>,
                  (result cached)\<lparr> latency := clock 2 - startTime, provider := ''cache'' \<rparr>,
                  []))
         | None \<Rightarrow>
             (case map_get (marianTranslators s) (sourceLanguage @ ''-'' @ targetLanguage) of
                Some marianTranslator \<Rightarrow>
                  (case after_model clock s text sourceLanguage targetLanguage ''marian'' 0.8
                          (marianTranslator text) of
                     (s', r) \<Rightarrow> (s', r, [''marian'']))
              | None \<Rightarrow>
                  (case m2m100Translator s of
                     Some m2m100 \<Rightarrow>
                       (case after_model clock s text sourceLanguage targetLanguage ''m2m100'' 0.7
                               (m2m100 text
                                  (or_else (map_get supportedLanguages sourceLanguage) sourceLanguage)
                                  (or_else (map_get supportedLanguages targetLanguage) targetLanguage)) of
                          (s', r) \<Rightarrow> (s', r, [''m2m100'']))
                   | None \<Rightarrow>
                       (case createTranslationResult s text text sourceLanguage targetLanguage
                               ''cache'' 0.1 (clock 1 - startTime) (clock 2) of
                          (s', r) \<Rightarrow> (s', r, [])))))"

text \<open>\<open>getPerformanceStats\<close>: the four counters, and three derived fields.\<close>

record PerformanceReport = PerformanceStats +
  cacheHitRate :: real
  cacheSize :: nat
  isInitialized_report :: bool

definition getPerformanceStats :: "FastTranslationHelper \<Rightarrow> PerformanceReport" where
  "getPerformanceStats s =
     (let st = performanceStats s
      in \<lparr> totalTranslations = totalTranslations st,
           cacheHits = cacheHits st,
           avgLatency = avgLatency st,
           modelLoadTime = modelLoadTime st,
           cacheHitRate = real (cacheHits st) / real (max (totalTranslations st) 1),
           cacheSize = map_size (translationCache_fast s),
           isInitialized_report = isInitialized s \<rparr>)"

definition clearCache_fast :: "FastTranslationHelper \<Rightarrow> FastTranslationHelper" where
  "clearCache_fast s =
     s\<lparr> translationCache_fast := [],
        performanceStats := (performanceStats s)\<lparr> cacheHits := 0 \<rparr> \<rparr>"

text \<open>
  \<open>initialize\<close> loads the models. What the loaders yield is outside the program:
  \<open>loadM2M100\<close> is the pipeline \<open>loadM2M100Model\<close> obtains (\<open>None\<close> when loading throws),
  \<open>loadMarian\<close> the pipeline for a MarianMT model name, \<open>ocrOk\<close> whether the OCR worker
  starts, \<open>loadClock\<close> the readings of \<open>Date.now()\<close>. A throw of \<open>initializeOCR\<close> or
  \<open>loadM2M100Model\<close> leaves \<open>initialize\<close> before any modelled field is assigned; a throw
  while a MarianMT model loads is caught per language pair.
\<close>

record load_env =
  ocrOk :: bool
  loadM2M100 :: "(string \<Rightarrow> string \<Rightarrow> string \<Rightarrow> model_outcome) option"
  loadMarian :: "string \<Rightarrow> (string \<Rightarrow> model_outcome) option"
  loadClock :: "nat \<Rightarrow> int"

definition marianModels :: "(string, string) jsmap" where
  "marianModels =
     [(''zh-en'', ''Xenova/opus-mt-zh-en''), (''ja-en'', ''Xenova/opus-mt-ja-en''),
      (''ko-en'', ''Xenova/opus-mt-ko-en''), (''en-zh'', ''Xenova/opus-mt-en-zh'')]"

fun preloadMarianModels :: "load_env \<Rightarrow> string list \<Rightarrow> FastTranslationHelper \<Rightarrow> FastTranslationHelper" where
  "preloadMarianModels env [] s = s"
| "preloadMarianModels env (pair # languagePairs) s =
     (case map_get marianModels pair of
        None \<Rightarrow> preloadMarianModels env languagePairs s
      | Some modelName \<Rightarrow>
          (case loadMarian env modelName of
             None \<Rightarrow> preloadMarianModels env languagePairs s
           | Some translator \<Rightarrow>
               preloadMarianModels env languagePairs
                 (s\<lparr> marianTranslators := map_set pair translator (marianTranslators s) \<rparr>)))"

definition initialize :: "load_env \<Rightarrow> FastTranslationHelper \<Rightarrow> FastTranslationHelper" where
  "initialize env s =
     (if isInitialized s then s
      else if \<not> ocrOk env then s
      else (case loadM2M100 env of
              None \<Rightarrow> s
            | Some m2m100 \<Rightarrow>
                (let s1 = s\<lparr> m2m100Translator := Some m2m100 \<rparr>;
                     s2 = preloadMarianModels env [''zh-en'', ''ja-en'', ''ko-en''] s1
                 in s2\<lparr> performanceStats :=
                          (performanceStats s2)\<lparr> modelLoadTime := loadClock env 1 - loadClock env 0 \<rparr>,
                        isInitialized := True \<rparr>)))"

definition cleanup_fast :: "FastTranslationHelper \<Rightarrow> FastTranslationHelper" where
  "cleanup_fast s =
     s\<lparr> translationCache_fast := [], marianTranslators := [],
        m2m100Translator := None, isInitialized := False \<rparr>"

text \<open>The calls on a \<open>FastTranslationHelper\<close>, and a run of them.\<close>

datatype call_fast =
    Initialize load_env
  | Translate_fast "nat \<Rightarrow> int" string string string
  | ClearCache_fast
  | Cleanup_fast

fun exec_fast :: "call_fast \<Rightarrow> FastTranslationHelper \<Rightarrow> FastTranslationHelper" where
  "exec_fast (Initialize env) s = initialize env s"
| "exec_fast (Translate_fast clock text sourceLanguage targetLanguage) s =
     fst (translateText_fast clock s text sourceLanguage targetLanguage)"
| "exec_fast ClearCache_fast s = clearCache_fast s"
| "exec_fast Cleanup_fast s = cleanup_fast s"

datatype op_fast = Call_fast call_fast | Put_fast int string FastTranslationResult

fun apply_op_fast :: "op_fast \<Rightarrow> FastTranslationHelper \<Rightarrow> FastTranslationHelper" where
  "apply_op_fast (Call_fast c) s = exec_fast c s"
| "apply_op_fast (Put_fast t key r) s = cacheTranslation_fast t key r s"

section \<open>FastTranslationHelper.js: the subtitle classifier\<close>

text \<open>
  \<open>detectSubtitlePattern\<close> tests its text against regular expressions. A JavaScript string
  is a sequence of UTF-16 code units, here a list of numbers; \<open>str\<close> embeds a literal.
  A pattern is a regular expression over code units, with character classes given as
  lists of ranges. \<open>matches\<close> decides whether the whole string belongs to the pattern, by
  Brzozowski derivatives. None of the patterns has the flags \<open>g\<close>, \<open>y\<close>, \<open>m\<close> or \<open>s\<close>:
  \<open>test\<close> has no state, \<open>^\<close> and \<open>$\<close> match at the two ends of the string only, and \<open>.\<close>
  is any code unit but the four line terminators. A pattern anchored at both ends is
  tested with \<open>test_full\<close>, one anchored at the start only with \<open>test_prefix\<close>, one anchored
  at the end only with \<open>test_suffix\<close>. \<open>\s\<close> is the class \<open>space\<close>; under the flag \<open>i\<close> a
  letter of \<open>sounds\<close> stands for its two cases (\<open>lit_i\<close>).
\<close>

type_synonym jsstring = "nat list"

definition str :: "string \<Rightarrow> jsstring" where
  "str s = map of_char s"

datatype regex =
    Nothing
  | Epsilon
  | Chars "(nat \<times> nat) list"
  | NotChars "(nat \<times> nat) list"
  | Seq regex regex
  | Alt regex regex
  | Star regex

fun in_ranges :: "nat \<Rightarrow> (nat \<times> nat) list \<Rightarrow> bool" where
  "in_ranges c [] = False"
| "in_ranges c ((lo, hi) # rs) = ((lo \<le> c \<and> c \<le> hi) \<or> in_ranges c rs)"

fun nullable :: "regex \<Rightarrow> bool" where
  "nullable Nothing = False"
| "nullable Epsilon = True"
| "nullable (Chars rs) = False"
| "nullable (NotChars rs) = False"
| "nullable (Seq r s) = (nullable r \<and> nullable s)"
| "nullable (Alt r s) = (nullable r \<or> nullable s)"
| "nullable (Star r) = True"

fun deriv :: "nat \<Rightarrow> regex \<Rightarrow> regex" where
  "deriv c Nothing = Nothing"
| "deriv c Epsilon = Nothing"
| "deriv c (Chars rs) = (if in_ranges c rs then Epsilon else Nothing)"
| "deriv c (NotChars rs) = (if in_ranges c rs then Nothing else Epsilon)"
| "deriv c (Seq r s) =
     (if nullable r then Alt (Seq (deriv c r) s) (deriv c s) else Seq (deriv c r) s)"
| "deriv c (Alt r s) = Alt (deriv c r) (deriv c s)"
| "deriv c (Star r) = Seq (deriv c r) (Star r)"

fun matches :: "regex \<Rightarrow> jsstring \<Rightarrow> bool" where
  "matches r [] = nullable r"
| "matches r (c # cs) = matches (deriv c r) cs"

definition Many1 :: "regex \<Rightarrow> regex" where
  "Many1 r = Seq r (Star r)"

definition Opt :: "regex \<Rightarrow> regex" where
  "Opt r = Alt r Epsilon"

definition lit :: "char \<Rightarrow> regex" where
  "lit c = Chars [(of_char c, of_char c)]"

definition lit_i :: "char \<Rightarrow> char \<Rightarrow> regex" where
  "lit_i lower upper = Chars [(of_char lower, of_char lower), (of_char upper, of_char upper)]"

definition one_of :: "string \<Rightarrow> regex" where
  "one_of cs = Chars (map (\<lambda>c. (of_char c, of_char c)) cs)"

definition none_of :: "string \<Rightarrow> regex" where
  "none_of cs = NotChars (map (\<lambda>c. (of_char c, of_char c)) cs)"

definition any :: regex where
  "any = NotChars []"

definition dot :: regex where
  "dot = NotChars [(10, 10), (13, 13), (8232, 8233)]"

definition upper :: "(nat \<times> nat) list" where
  "upper = [(65, 90)]"

definition lower :: "(nat \<times> nat) list" where
  "lower = [(97, 122)]"

definition digit :: "(nat \<times> nat) list" where
  "digit = [(48, 57)]"

definition space :: "(nat \<times> nat) list" where
  "space = [(9, 13), (32, 32), (160, 160), (5760, 5760), (8192, 8202), (8232, 8233),
            (8239, 8239), (8287, 8287), (12288, 12288), (65279, 65279)]"

fun seqs :: "regex list \<Rightarrow> regex" where
  "seqs [] = Epsilon"
| "seqs [r] = r"
| "seqs (r # rs) = Seq r (seqs rs)"

definition test_full :: "regex \<Rightarrow> jsstring \<Rightarrow> bool" where
  "test_full r s = matches r s"

definition test_prefix :: "regex \<Rightarrow> jsstring \<Rightarrow> bool" where
  "test_prefix r s = matches (Seq r (Star any)) s"

definition test_suffix :: "regex \<Rightarrow> jsstring \<Rightarrow> bool" where
  "test_suffix r s = matches (Seq (Star any) r) s"

text \<open>
  The table \<open>subtitlePatterns\<close>, in the order of \<open>Object.entries\<close>, each category with its
  patterns in the order of the array; \<open>CHR 0x22\<close> and \<open>CHR 0x27\<close> are the two quote characters,
  9834 and 9835 the two musical notes.
\<close>

datatype SubtitleType = Dialogue | Narrator | Action | Song | Unknown

record SubtitlePattern =
  isSubtitle_pattern :: bool
  subtitleType :: SubtitleType
  confidence_pattern :: real

definition subtitlePatterns :: "(SubtitleType \<times> regex list) list" where
  "subtitlePatterns =
     [(Dialogue,
        [seqs [Chars upper, Chars lower, Star dot, one_of ''.!?''],
         seqs [one_of [CHR 0x22, CHR 0x27], Star dot, one_of [CHR 0x22, CHR 0x27]],
         seqs [lit CHR ''-'', Star (Chars space), Chars upper, Star dot],
         seqs [Many1 (Chars (upper @ space)), lit CHR '':'', Star (Chars space), Star dot]]),
      (Narrator,
        [seqs [lit CHR ''('', Many1 (none_of '')''), lit CHR '')''],
         seqs [lit CHR ''['', Many1 (none_of '']''), lit CHR '']''],
         seqs [Many1 (Chars (upper @ space)), lit CHR '':'']]),
      (Action,
        [seqs [lit CHR ''*'', Many1 (none_of ''*''), lit CHR ''*''],
         seqs [lit CHR ''<'', Many1 (none_of ''>''), lit CHR ''>''],
         seqs [lit CHR ''('', Star (none_of '')''),
               lit_i CHR ''s'' CHR ''S'', lit_i CHR ''o'' CHR ''O'', lit_i CHR ''u'' CHR ''U'',
               lit_i CHR ''n'' CHR ''N'', lit_i CHR ''d'' CHR ''D'', Opt (lit_i CHR ''s'' CHR ''S''),
               Star (none_of '')''), lit CHR '')'']]),
      (Song,
        [seqs [Chars [(9834, 9834)], Star dot, Chars [(9834, 9834)]],
         seqs [Chars [(9835, 9835)], Star dot, Chars [(9835, 9835)]],
         seqs [lit CHR ''~'', Star dot, lit CHR ''~'']])]"

definition hasSubtitleCharacteristics :: "jsstring \<Rightarrow> bool" where
  "hasSubtitleCharacteristics text =
     (length text > 5 \<and> length text < 200 \<and>
      test_suffix (one_of ''.!?'') text \<and>
      \<not> test_prefix (seqs [lit CHR ''h'', lit CHR ''t'', lit CHR ''t'', lit CHR ''p'',
                           Opt (lit CHR ''s''), lit CHR '':'', lit CHR ''/'', lit CHR ''/'']) text \<and>
      \<not> test_full (seqs [Many1 (Chars digit),
                         Star (Alt (Chars (digit @ space)) (one_of '':,.-''))]) text)"

definition detectSubtitlePattern :: "jsstring \<Rightarrow> SubtitlePattern" where
  "detectSubtitlePattern text =
     (case find (\<lambda>(type, patterns). list_ex (\<lambda>pattern. test_full pattern text) patterns)
             subtitlePatterns of
        Some (type, patterns) \<Rightarrow>
          \<lparr> isSubtitle_pattern = True, subtitleType = type, confidence_pattern = 0.9 \<rparr>
      | None \<Rightarrow>
          \<lparr> isSubtitle_pattern = hasSubtitleCharacteristics text,
            subtitleType = Unknown,
            confidence_pattern = (if hasSubtitleCharacteristics text then 0.6 else 0.1) \<rparr>)"

section \<open>AreaSelectionHelper.ts: the monitoring loop\<close>

text \<open>
  The helper keeps its regions in a \<open>Map\<close> from region ids to region objects and runs
  \<open>checkRegionForChanges\<close> on every active region from a \<open>setInterval\<close> callback. The
  callback is asynchronous: it is suspended at each \<open>await\<close>, and the timer fires again
  after \<open>MONITOR_INTERVAL\<close> milliseconds whether or not an earlier callback has finished.
  The model is that of the event loop: a state of the helper together with the callbacks
  that are suspended, and one transition for every event that can run next (the timer
  firing, the completion of an awaited operation of one callback, a call from outside).
  Durations are not modelled; a check that outlives the interval is a run in which
  \<open>Tick\<close> comes before the completions of the earlier callback.

  Region objects are shared between the map and the suspended callbacks, so they live in
  a store \<open>objects\<close> indexed by their id (ids are fresh UUIDs), and \<open>selectedRegions\<close> is
  the list of the map's keys in insertion order, in which a deleted key leaves an empty
  slot: this is how an iterator of a \<open>Map\<close> keeps its position while entries are deleted.
  A suspended callback is at position \<open>pos\<close> of the iteration, in the check of the region
  \<open>checked_region\<close>, waiting at \<open>stage\<close> for the screenshot, for the image hash, or for the
  file to be written.
\<close>

record SelectedRegion =
  region_id :: string
  region_x :: int
  region_y :: int
  region_width :: int
  region_height :: int
  displayId :: int
  isActive :: bool
  lastText :: "string option"
  lastTextHash :: "string option"

datatype stage = Capturing | Hashing | Saving

record callback =
  pos :: nat
  checked_region :: string
  stage :: stage

record AreaSelectionHelper =
  objects :: "string \<Rightarrow> SelectedRegion option"
  selectedRegions :: "string option list"
  monitoringInterval :: "nat option"
  timers :: nat
  callbacks :: "callback list"
  notifications :: "(string \<times> string) list"

definition AreaSelectionHelper_new :: AreaSelectionHelper where
  "AreaSelectionHelper_new =
     \<lparr> objects = (\<lambda>k. None), selectedRegions = [], monitoringInterval = None, timers = 0,
       callbacks = [], notifications = [] \<rparr>"

definition MONITOR_INTERVAL :: nat where
  "MONITOR_INTERVAL = 1000"

definition regions_has :: "AreaSelectionHelper \<Rightarrow> string \<Rightarrow> bool" where
  "regions_has s k = (Some k \<in> set (selectedRegions s))"

definition regions_get :: "AreaSelectionHelper \<Rightarrow> string \<Rightarrow> SelectedRegion option" where
  "regions_get s k = (if regions_has s k then objects s k else None)"

definition notifyRegionChange :: "string \<Rightarrow> string \<Rightarrow> AreaSelectionHelper \<Rightarrow> AreaSelectionHelper" where
  "notifyRegionChange event k s = s\<lparr> notifications := notifications s @ [(event, k)] \<rparr>"

fun scan :: "(string \<Rightarrow> SelectedRegion option) \<Rightarrow> nat \<Rightarrow> string option list \<Rightarrow> (nat \<times> string) option" where
  "scan obj i [] = None"
| "scan obj i (None # es) = scan obj (Suc i) es"
| "scan obj i (Some k # es) =
     (case obj k of
        Some region \<Rightarrow> (if isActive region then Some (i, k) else scan obj (Suc i) es)
      | None \<Rightarrow> scan obj (Suc i) es)"

definition next_active :: "AreaSelectionHelper \<Rightarrow> nat \<Rightarrow> (nat \<times> string) option" where
  "next_active s i = scan (objects s) i (drop i (selectedRegions s))"

definition startMonitoring :: "AreaSelectionHelper \<Rightarrow> AreaSelectionHelper" where
  "startMonitoring s = s\<lparr> monitoringInterval := Some (timers s), timers := Suc (timers s) \<rparr>"

definition stopMonitoring :: "AreaSelectionHelper \<Rightarrow> AreaSelectionHelper" where
  "stopMonitoring s = s\<lparr> monitoringInterval := None \<rparr>"

definition tick :: "AreaSelectionHelper \<Rightarrow> AreaSelectionHelper" where
  "tick s =
     (case monitoringInterval s of
        None \<Rightarrow> s
      | Some t \<Rightarrow>
          (case next_active s 0 of
             None \<Rightarrow> s
           | Some (i, k) \<Rightarrow>
               s\<lparr> callbacks := callbacks s @ [\<lparr> pos = i, checked_region = k, stage = Capturing \<rparr>] \<rparr>))"

definition check_returns :: "nat \<Rightarrow> AreaSelectionHelper \<Rightarrow> AreaSelectionHelper" where
  "check_returns n s =
     (case next_active s (Suc (pos (callbacks s ! n))) of
        None \<Rightarrow> s\<lparr> callbacks := take n (callbacks s) @ drop (Suc n) (callbacks s) \<rparr>
      | Some (i, k) \<Rightarrow>
          s\<lparr> callbacks := (callbacks s)[n := \<lparr> pos = i, checked_region = k, stage = Capturing \<rparr>] \<rparr>)"

definition set_stage :: "nat \<Rightarrow> stage \<Rightarrow> AreaSelectionHelper \<Rightarrow> AreaSelectionHelper" where
  "set_stage n st s = s\<lparr> callbacks := (callbacks s)[n := (callbacks s ! n)\<lparr> stage := st \<rparr>] \<rparr>"

definition at_stage :: "nat \<Rightarrow> stage \<Rightarrow> AreaSelectionHelper \<Rightarrow> bool" where
  "at_stage n st s = (n < length (callbacks s) \<and> stage (callbacks s ! n) = st)"

definition capture_done :: "nat \<Rightarrow> bool \<Rightarrow> AreaSelectionHelper \<Rightarrow> AreaSelectionHelper" where
  "capture_done n screenshot s =
     (if \<not> at_stage n Capturing s then s
      else if \<not> screenshot then check_returns n s
      else set_stage n Hashing s)"

definition hash_done :: "nat \<Rightarrow> string option \<Rightarrow> AreaSelectionHelper \<Rightarrow> AreaSelectionHelper" where
  "hash_done n imageHash s =
     (if \<not> at_stage n Hashing s then s
      else
        (case imageHash of
           None \<Rightarrow> check_returns n s
         | Some h \<Rightarrow>
             (let k = checked_region (callbacks s ! n) in
              case objects s k of
                None \<Rightarrow> check_returns n s
              | Some region \<Rightarrow>
                  (if (case lastTextHash region of None \<Rightarrow> False | Some l \<Rightarrow> l \<noteq> [] \<and> l = h)
                   then check_returns n s
                   else set_stage n Saving
                          (s\<lparr> objects := (objects s)(k \<mapsto> region\<lparr> lastTextHash := Some h \<rparr>) \<rparr>)))))"

definition save_done :: "nat \<Rightarrow> bool \<Rightarrow> AreaSelectionHelper \<Rightarrow> AreaSelectionHelper" where
  "save_done n written s =
     (if \<not> at_stage n Saving s then s
      else if written
        then check_returns n (notifyRegionChange ''region-changed'' (checked_region (callbacks s ! n)) s)
      else check_returns n s)"

fun regions_delete :: "string \<Rightarrow> string option list \<Rightarrow> string option list" where
  "regions_delete k [] = []"
| "regions_delete k (e # es) = (if e = Some k then None # es else e # regions_delete k es)"

definition handleSelectionCompleted ::
  "string \<Rightarrow> int \<Rightarrow> int \<Rightarrow> int \<Rightarrow> int \<Rightarrow> int \<Rightarrow> AreaSelectionHelper \<Rightarrow> AreaSelectionHelper" where
  "handleSelectionCompleted regionId sx sy sw sh display s =
     (if objects s regionId \<noteq> None then s
      else
        notifyRegionChange ''region-added'' regionId
          (s\<lparr> objects := (objects s)(regionId \<mapsto>
                  \<lparr> region_id = regionId, region_x = sx, region_y = sy, region_width = sw,
                    region_height = sh, displayId = display, isActive = False,
                    lastText = None, lastTextHash = None \<rparr>),
               selectedRegions := selectedRegions s @ [Some regionId] \<rparr>))"

definition deleteRegion :: "string \<Rightarrow> AreaSelectionHelper \<Rightarrow> AreaSelectionHelper" where
  "deleteRegion regionId s =
     (case regions_get s regionId of
        None \<Rightarrow> s
      | Some region \<Rightarrow>
          notifyRegionChange ''region-deleted'' regionId
            (s\<lparr> objects := (objects s)(regionId \<mapsto> region\<lparr> isActive := False \<rparr>),
                 selectedRegions := regions_delete regionId (selectedRegions s) \<rparr>))"

definition toggleRegionMonitoring :: "string \<Rightarrow> AreaSelectionHelper \<Rightarrow> AreaSelectionHelper" where
  "toggleRegionMonitoring regionId s =
     (case regions_get s regionId of
        None \<Rightarrow> s
      | Some region \<Rightarrow>
          (let s1 = s\<lparr> objects := (objects s)(regionId \<mapsto> region\<lparr> isActive := \<not> isActive region \<rparr>) \<rparr>;
               s2 = (if \<not> isActive region \<and> monitoringInterval s1 = None
                     then startMonitoring s1 else s1)
           in notifyRegionChange ''region-toggled'' regionId s2))"

datatype event =
    Tick
  | CaptureDone nat bool
  | HashDone nat "string option"
  | SaveDone nat bool
  | StartMonitoring
  | StopMonitoring
  | ToggleRegionMonitoring string
  | DeleteRegion string
  | SelectionCompleted string int int int int int

fun apply_event :: "event \<Rightarrow> AreaSelectionHelper \<Rightarrow> AreaSelectionHelper" where
  "apply_event Tick s = tick s"
| "apply_event (CaptureDone n screenshot) s = capture_done n screenshot s"
| "apply_event (HashDone n imageHash) s = hash_done n imageHash s"
| "apply_event (SaveDone n written) s = save_done n written s"
| "apply_event StartMonitoring s = startMonitoring s"
| "apply_event StopMonitoring s = stopMonitoring s"
| "apply_event (ToggleRegionMonitoring k) s = toggleRegionMonitoring k s"
| "apply_event (DeleteRegion k) s = deleteRegion k s"
| "apply_event (SelectionCompleted k sx sy sw sh d) s = handleSelectionCompleted k sx sy sw sh d s"

text \<open>
  The number of checks of a region that are in flight, and the runs in which the timer
  fires only when no callback is suspended.
\<close>

definition checks_in_flight :: "string \<Rightarrow> AreaSelectionHelper \<Rightarrow> nat" where
  "checks_in_flight k s = length (filter (\<lambda>c. checked_region c = k) (callbacks s))"

fun ticks_apart :: "event list \<Rightarrow> AreaSelectionHelper \<Rightarrow> bool" where
  "ticks_apart [] s = True"
| "ticks_apart (e # es) s =
     ((if e = Tick then callbacks s = [] else True) \<and> ticks_apart es (apply_event e s))"

text \<open>A region was selected and switched on, and the timer has fired once.\<close>

definition one_region_ticking :: AreaSelectionHelper where
  "one_region_ticking =
     fold apply_event
       [SelectionCompleted ''r1'' 0 0 100 50 1, ToggleRegionMonitoring ''r1'', Tick]
       AreaSelectionHelper_new"

section \<open>Invariants and sample states\<close>

text \<open>The bounds that the two caches keep; the keys of a \<open>Map\<close> are distinct.\<close>

definition th_bounded :: "TranslationHelper \<Rightarrow> bool" where
  "th_bounded s = (MAX_CACHE_SIZE s = 1000 \<and> map_size (translationCache s) \<le> 1000)"

definition fast_bounded :: "FastTranslationHelper \<Rightarrow> bool" where
  "fast_bounded s = (distinct (map_keys (translationCache_fast s)) \<and>
                     map_size (translationCache_fast s) \<le> MAX_CACHE_SIZE_fast)"

text \<open>
  What holds of the results kept in the two caches: a dispatcher result is \<open>confident\<close>
  when its confidence is above 0.5; a fast result is \<open>from_model\<close> when it was produced by
  MarianMT or M2M-100, with a confidence that is not 0.
\<close>

definition from_model :: "FastTranslationResult \<Rightarrow> bool" where
  "from_model r = ((provider r = ''marian'' \<or> provider r = ''m2m100'') \<and> confidence r \<noteq> 0)"

definition confident :: "TranslationResult \<Rightarrow> bool" where
  "confident r = (confidence r > 0.5)"

text \<open>
  Concrete states: \<open>th_filled n\<close> and \<open>fast_filled n\<close> are helpers whose caches hold the
  translations of \<open>n\<close> distinct texts (\<open>a\<close>, \<open>aa\<close>, \<open>aaa\<close>, ...), inserted in this order,
  the \<open>i\<close>-th at time \<open>i\<close>.
\<close>

definition sample_text :: "nat \<Rightarrow> string" where
  "sample_text i = replicate (Suc i) CHR ''a''"

definition sample_result :: "nat \<Rightarrow> TranslationResult" where
  "sample_result i =
     \<lparr> originalText = sample_text i, translatedText = sample_text i, pinyin = None, tones = None,
       confidence = 0.7, provider = ''google'', detectedLanguage = ''es'', timestamp = int i \<rparr>"

definition th_filled :: "nat \<Rightarrow> TranslationHelper" where
  "th_filled n =
     TranslationHelper_new\<lparr> translationCache :=
       map (\<lambda>i. (cacheKey (sample_text i) ''en'' None, sample_result i)) [0..<n] \<rparr>"

text \<open>
  \<open>th_filled n\<close> is the state of a new dispatcher after the \<open>n\<close> calls \<open>sample_calls n\<close>
  (for \<open>n\<close> up to the capacity), in a world where Gemini is not configured and Google
  answers every request with confidence 0.7.
\<close>

definition world_sample :: world where
  "world_sample = \<lparr> translateWithGemini = (\<lambda>t tl sl. Null),
                    translateWithGoogle = (\<lambda>t tl sl. Returns
                       \<lparr> originalText = t, translatedText = t, pinyin = None, tones = None,
                         confidence = 0.7, provider = ''google'', detectedLanguage = ''es'',
                         timestamp = int (length t) - 1 \<rparr>),
                    now = (\<lambda>k. int k) \<rparr>"

definition sample_calls :: "nat \<Rightarrow> call list" where
  "sample_calls n = map (\<lambda>i. Translate world_sample (sample_text i) None None) [0..<n]"

definition hola_result :: TranslationResult where
  "hola_result =
     \<lparr> originalText = ''hola'', translatedText = ''hello'', pinyin = None, tones = None,
       confidence = 0.7, provider = ''google'', detectedLanguage = ''es'', timestamp = 0 \<rparr>"

definition sample_entry_fast :: "nat \<Rightarrow> string \<times> CachedTranslation" where
  "sample_entry_fast i =
     (cacheKey_fast (sample_text i) ''es'' ''en'',
      \<lparr> result =
          \<lparr> originalText = sample_text i, translatedText = sample_text i, pinyin = None,
            tones = None, confidence = 0.7, provider = ''m2m100'', detectedLanguage = ''es'',
            timestamp = int i, latency = 5, isSubtitle = True \<rparr>,
        accessCount = 1, lastAccessed = int i \<rparr>)"

definition fast_filled :: "nat \<Rightarrow> FastTranslationHelper" where
  "fast_filled n = FastTranslationHelper_new\<lparr> translationCache_fast := map sample_entry_fast [0..<n] \<rparr>"

definition hola_result_fast :: FastTranslationResult where
  "hola_result_fast =
     \<lparr> originalText = ''hola'', translatedText = ''hello'', pinyin = None, tones = None,
       confidence = 0.7, provider = ''m2m100'', detectedLanguage = ''es'', timestamp = 0,
       latency = 5, isSubtitle = True \<rparr>"

text \<open>
  Two outcomes of loading the models: M2M-100 loads and reports a score of 0.3 with each
  translation, or it loads and reports no score; no MarianMT model loads.
\<close>

definition load_low :: load_env where
  "load_low = \<lparr> ocrOk = True,
                loadM2M100 = Some (\<lambda>t sl tl. ModelReturns ''hello'' (Some 0.3)),
                loadMarian = (\<lambda>m. None),
                loadClock = (\<lambda>k. int k) \<rparr>"

definition load_plain :: load_env where
  "load_plain = \<lparr> ocrOk = True,
                  loadM2M100 = Some (\<lambda>t sl tl. ModelReturns ''hello'' None),
                  loadMarian = (\<lambda>m. None),
                  loadClock = (\<lambda>k. int k) \<rparr>"

section \<open>Properties\<close>

subsection \<open>Helper lemmas on the insertion-ordered table\<close>

lemma fst_in_keys: "(a, b) \<in> set m \<Longrightarrow> a \<in> fst ` set m"
  by force

lemma snd_in_values: "(a, b) \<in> set m \<Longrightarrow> b \<in> snd ` set m"
  by force

lemma keys_map_set: "set (map fst (map_set k v m)) = insert k (set (map fst m))"
proof (induction m)
  case Nil
  then show ?case by simp
next
  case (Cons a m)
  obtain k' v' where a: "a = (k', v')" by (cases a)
  show ?case unfolding a using Cons.IH
    by (cases "k' = k") (simp_all add: insert_commute)
qed

lemma length_map_set:
  "length (map_set k v m) = (if k \<in> set (map fst m) then length m else Suc (length m))"
  by (induction m) (auto dest: fst_in_keys)

lemma distinct_map_set: "distinct (map fst m) \<Longrightarrow> distinct (map fst (map_set k v m))"
proof (induction m)
  case Nil
  then show ?case by simp
next
  case (Cons a m)
  then show ?case using keys_map_set [of k v m] by (cases a) auto
qed

lemma map_of_map_set: "map_of (map_set k v m) = (map_of m)(k \<mapsto> v)"
  by (induction m) auto

lemma values_map_set: "set (map snd (map_set k v m)) \<subseteq> insert v (set (map snd m))"
proof (induction m)
  case Nil
  then show ?case by simp
next
  case (Cons a m)
  obtain k' v' where a: "a = (k', v')" by (cases a)
  show ?case unfolding a using Cons.IH
    by (cases "k' = k") auto
qed

lemma distinct_map_delete: "distinct (map fst m) \<Longrightarrow> distinct (map fst (map_delete k m))"
  by (simp add: map_delete_def distinct_map_filter)

lemma map_of_map_delete: "map_of (map_delete k m) = (map_of m)(k := None)"
  by (induction m) (auto simp: map_delete_def)

lemma fold_map_delete:
  "fold (\<lambda>e m. map_delete (fst e) m) es c = filter (\<lambda>e. fst e \<notin> fst ` set es) c"
proof (induction es arbitrary: c)
  case Nil
  then show ?case by simp
next
  case (Cons a es)
  show ?case
  proof -
    have "fold (\<lambda>e m. map_delete (fst e) m) (a # es) c =
          filter (\<lambda>e. fst e \<notin> fst ` set es) (map_delete (fst a) c)"
      by (simp add: Cons.IH)
    also have "\<dots> = filter (\<lambda>e. fst e \<notin> fst ` set (a # es)) c"
      unfolding map_delete_def filter_filter by (rule filter_cong) auto
    finally show ?thesis .
  qed
qed

lemma key_mem_iff:
  assumes "distinct (map fst c)" "set es \<subseteq> set c" "e \<in> set c"
  shows "fst e \<in> fst ` set es \<longleftrightarrow> e \<in> set es"
proof
  assume "fst e \<in> fst ` set es"
  then obtain e' where e': "e' \<in> set es" "fst e' = fst e" by auto
  with assms have "e' \<in> set c" by auto
  with assms(1,3) e'(2) have "e' = e" by (meson eq_key_imp_eq_value distinct_map inj_onD)
  with e' show "e \<in> set es" by simp
qed auto

lemma filter_keys_eq:
  assumes "distinct (map fst c)" "set es \<subseteq> set c"
  shows "filter (\<lambda>e. fst e \<notin> fst ` set es) c = filter (\<lambda>e. e \<notin> set es) c"
  by (rule filter_cong) (auto simp: key_mem_iff [OF assms])

lemma length_filter_notin:
  assumes "distinct c" "distinct es" "set es \<subseteq> set c"
  shows "length (filter (\<lambda>e. e \<notin> set es) c) = length c - length es"
proof -
  have "length (filter (\<lambda>e. e \<notin> set es) c) = card (set c - set es)"
    using assms(1) by (simp add: distinct_card [symmetric] set_diff_eq)
  also have "\<dots> = card (set c) - card (set es)"
    using assms(3) by (simp add: card_Diff_subset)
  finally show ?thesis using assms by (simp add: distinct_card)
qed

lemma floor_fifth: "nat \<lfloor>real cap * 0.2\<rfloor> = cap div 5"
proof -
  have "real cap * 0.2 = real cap / real 5" by simp
  then show ?thesis by (simp only: floor_divide_of_nat_eq nat_int)
qed

subsection \<open>Enabling and disabling a provider\<close>

lemma set_first_absent: "n \<notin> name ` set ps \<Longrightarrow> set_first n e ps = ps"
  by (induction ps) auto

lemma set_first_present:
  "n \<in> name ` set ps \<Longrightarrow>
     \<exists>pre p post. ps = pre @ p # post \<and> name p = n \<and> n \<notin> name ` set pre \<and>
        set_first n e ps = pre @ p\<lparr> enabled := e \<rparr> # post"
proof (induction ps)
  case Nil
  then show ?case by simp
next
  case (Cons q qs)
  show ?case
  proof (cases "name q = n")
    case True
    then have "q # qs = [] @ q # qs \<and> name q = n \<and> n \<notin> name ` set [] \<and>
        set_first n e (q # qs) = [] @ q\<lparr> enabled := e \<rparr> # qs" by simp
    then show ?thesis by blast
  next
    case False
    with Cons.prems have "n \<in> name ` set qs" by auto
    from Cons.IH [OF this] obtain pre p post where
      h: "qs = pre @ p # post" "name p = n" "n \<notin> name ` set pre"
         "set_first n e qs = pre @ p\<lparr> enabled := e \<rparr> # post" by blast
    with False have "q # qs = (q # pre) @ p # post \<and> name p = n \<and> n \<notin> name ` set (q # pre) \<and>
        set_first n e (q # qs) = (q # pre) @ p\<lparr> enabled := e \<rparr> # post" by auto
    then show ?thesis by blast
  qed
qed

lemma set_first_names: "map name (set_first n e ps) = map name ps"
  by (induction ps) auto

lemma set_first_prios: "map priority (set_first n e ps) = map priority ps"
  by (induction ps) auto

text \<open>
  C10. \<open>setProviderEnabled(name, enabled)\<close>: when no provider has the name, the helper
  is unchanged. When one has it, the provider list splits around the first provider \<open>p\<close>
  of that name, and the new list is the old one with \<open>p\<close>'s \<open>enabled\<close> flag set to the
  given value: the providers before and after it, their order, and \<open>p\<close>'s name and
  priority are as before. The list of names, the list of priorities and the cache never
  change.
\<close>

theorem setProviderEnabled_frame:
  "(n \<notin> name ` set (providers s) \<longrightarrow> setProviderEnabled n e s = s) \<and>
   (n \<in> name ` set (providers s) \<longrightarrow>
      (\<exists>pre p post. providers s = pre @ p # post \<and> name p = n \<and> n \<notin> name ` set pre \<and>
         setProviderEnabled n e s = s\<lparr> providers := pre @ p\<lparr> enabled := e \<rparr> # post \<rparr>)) \<and>
   map name (providers (setProviderEnabled n e s)) = map name (providers s) \<and>
   map priority (providers (setProviderEnabled n e s)) = map priority (providers s) \<and>
   translationCache (setProviderEnabled n e s) = translationCache s"
proof (intro conjI impI)
  assume "n \<notin> name ` set (providers s)"
  then show "setProviderEnabled n e s = s"
    by (simp add: setProviderEnabled_def set_first_absent)
next
  assume "n \<in> name ` set (providers s)"
  from set_first_present [OF this, of e]
  show "\<exists>pre p post. providers s = pre @ p # post \<and> name p = n \<and> n \<notin> name ` set pre \<and>
         setProviderEnabled n e s = s\<lparr> providers := pre @ p\<lparr> enabled := e \<rparr> # post \<rparr>"
    unfolding setProviderEnabled_def by metis
qed (simp_all add: setProviderEnabled_def set_first_names set_first_prios)

theorem setProviderEnabled_frame_witness:
  "''google'' \<in> name ` set (providers TranslationHelper_new) \<and>
   ''bing'' \<notin> name ` set (providers TranslationHelper_new) \<and>
   setProviderEnabled ''bing'' False TranslationHelper_new = TranslationHelper_new \<and>
   providers (setProviderEnabled ''google'' False TranslationHelper_new) =
     [\<lparr> name = ''gemini'', enabled = True, priority = 1 \<rparr>,
      \<lparr> name = ''google'', enabled = False, priority = 2 \<rparr>,
      \<lparr> name = ''offline'', enabled = True, priority = 3 \<rparr>]"
proof -
  have absent: "''bing'' \<notin> name ` set (providers TranslationHelper_new)"
    by (simp add: TranslationHelper_new_def)
  have present: "''google'' \<in> name ` set (providers TranslationHelper_new)"
    by (simp add: TranslationHelper_new_def)
  from setProviderEnabled_frame [of "''bing''" TranslationHelper_new False] absent
  have unchanged: "setProviderEnabled ''bing'' False TranslationHelper_new = TranslationHelper_new"
    by blast
  from setProviderEnabled_frame [of "''google''" TranslationHelper_new False] present
  obtain pre p post where
    split: "providers TranslationHelper_new = pre @ p # post" "name p = ''google''"
      "''google'' \<notin> name ` set pre"
    and upd: "setProviderEnabled ''google'' False TranslationHelper_new =
      TranslationHelper_new\<lparr> providers := pre @ p\<lparr> enabled := False \<rparr> # post \<rparr>"
    by blast
  have "providers (setProviderEnabled ''google'' False TranslationHelper_new) =
     [\<lparr> name = ''gemini'', enabled = True, priority = 1 \<rparr>,
      \<lparr> name = ''google'', enabled = False, priority = 2 \<rparr>,
      \<lparr> name = ''offline'', enabled = True, priority = 3 \<rparr>]"
    by (simp add: setProviderEnabled_def TranslationHelper_new_def)
  with absent present unchanged show ?thesis by blast
qed

subsection \<open>Clearing the fast helper's cache\<close>

text \<open>
  C9. \<open>clearCache()\<close> of the fast translation helper empties the translation cache (the
  reported \<open>cacheSize\<close> is 0) and resets \<open>cacheHits\<close> to 0; \<open>totalTranslations\<close>,
  \<open>avgLatency\<close> and \<open>modelLoadTime\<close> keep their values.
\<close>

theorem clearCache_fast_frame:
  "translationCache_fast (clearCache_fast s) = [] \<and>
   cacheSize (getPerformanceStats (clearCache_fast s)) = 0 \<and>
   cacheHits (performanceStats (clearCache_fast s)) = 0 \<and>
   totalTranslations (performanceStats (clearCache_fast s)) = totalTranslations (performanceStats s) \<and>
   avgLatency (performanceStats (clearCache_fast s)) = avgLatency (performanceStats s) \<and>
   modelLoadTime (performanceStats (clearCache_fast s)) = modelLoadTime (performanceStats s)"
  by (simp add: clearCache_fast_def getPerformanceStats_def map_size_def)

subsection \<open>The caches stay within their capacity\<close>

lemma length_map_delete_first:
  "c \<noteq> [] \<Longrightarrow> length (map_delete (fst (hd c)) c) < length c"
  by (cases c) (simp_all add: map_delete_def le_imp_less_Suc)

lemma length_map_set_le: "length (map_set k v m) \<le> Suc (length m)"
  by (simp add: length_map_set)

lemma cacheTranslation_bounded:
  assumes "th_bounded s"
  shows "th_bounded (cacheTranslation key r s)"
proof (cases "map_size (translationCache s) \<ge> MAX_CACHE_SIZE s")
  case True
  with assms have ne: "translationCache s \<noteq> []" by (auto simp: th_bounded_def map_size_def)
  then obtain e c' where c: "translationCache s = e # c'" by (cases "translationCache s") auto
  from length_map_delete_first [OF ne] assms
  have "length (map_delete (fst e) (translationCache s)) < 1000"
    by (simp add: c th_bounded_def map_size_def)
  with length_map_set_le [of key r "map_delete (fst e) (translationCache s)"]
  have "length (map_set key r (map_delete (fst e) (translationCache s))) \<le> 1000" by linarith
  with True assms show ?thesis
    by (simp add: cacheTranslation_def th_bounded_def map_size_def map_keys_def c)
next
  case False
  with assms length_map_set_le [of key r "translationCache s"] show ?thesis
    by (simp add: cacheTranslation_def th_bounded_def map_size_def)
qed

lemma translateText_bounded:
  assumes "th_bounded s"
  shows "th_bounded (fst (translateText w s text tgt src))"
proof -
  have s1: "th_bounded (s\<lparr> providers := ps \<rparr>)" for ps
    using assms by (simp add: th_bounded_def)
  show ?thesis
    using assms s1 cacheTranslation_bounded
    by (auto simp: translateText_def Let_def split: option.splits prod.splits)
qed

lemma exec_bounded: "th_bounded s \<Longrightarrow> th_bounded (exec c s)"
  by (cases c)
     (simp_all add: translateText_bounded,
      simp_all add: th_bounded_def setProviderEnabled_def clearCache_def cleanup_def map_size_def)

lemma apply_op_bounded: "th_bounded s \<Longrightarrow> th_bounded (apply_op x s)"
  by (cases x) (simp_all add: exec_bounded cacheTranslation_bounded)

lemma run_bounded: "th_bounded s \<Longrightarrow> th_bounded (fold apply_op ops s)"
  by (induction ops arbitrary: s) (simp_all add: apply_op_bounded)

lemma new_bounded: "th_bounded TranslationHelper_new"
  by (simp add: th_bounded_def TranslationHelper_new_def map_size_def)

lemma evict_length:
  assumes d: "distinct (map fst c)" and n: "n \<le> length c"
  shows "length (fold (\<lambda>e m. map_delete (fst e) m) (take n (sort_key f c)) c) = length c - n"
    and "fold (\<lambda>e m. map_delete (fst e) m) (take n (sort_key f c)) c =
         filter (\<lambda>e. e \<notin> set (take n (sort_key f c))) c"
proof -
  let ?es = "take n (sort_key f c)"
  have sub: "set ?es \<subseteq> set c" using set_take_subset [of n "sort_key f c"] by simp
  from d have dc: "distinct c" by (simp add: distinct_map)
  then have des: "distinct ?es" by simp
  show eq: "fold (\<lambda>e m. map_delete (fst e) m) ?es c = filter (\<lambda>e. e \<notin> set ?es) c"
    by (simp only: fold_map_delete filter_keys_eq [OF d sub])
  show "length (fold (\<lambda>e m. map_delete (fst e) m) ?es c) = length c - n"
    unfolding eq using length_filter_notin [OF dc des sub] n by simp
qed

lemma distinct_fold_delete:
  "distinct (map fst c) \<Longrightarrow> distinct (map fst (fold (\<lambda>e m. map_delete (fst e) m) es c))"
  by (simp add: fold_map_delete distinct_map_filter)

lemma cacheTranslation_with_bounded:
  assumes d: "distinct (map_keys (translationCache_fast s))"
    and b: "map_size (translationCache_fast s) \<le> cap" and cap: "5 \<le> cap"
  shows "distinct (map_keys (translationCache_fast (cacheTranslation_with cap t key r s)))"
    and "map_size (translationCache_fast (cacheTranslation_with cap t key r s)) \<le> cap"
proof -
  let ?c = "translationCache_fast s"
  let ?c1 = "if map_size ?c \<ge> cap
             then fold (\<lambda>e m. map_delete (fst e) m)
                    (take (cap div 5) (sort_key (\<lambda>e. lastAccessed (snd e)) ?c)) ?c
             else ?c"
  have d': "distinct (map fst ?c)" using d by (simp add: map_keys_def)
  have dc1: "distinct (map fst ?c1)" using d' by (simp add: distinct_fold_delete)
  have l1: "length ?c1 < cap"
  proof (cases "map_size ?c \<ge> cap")
    case True
    with b have len: "length ?c = cap" by (simp add: map_size_def)
    then have "cap div 5 \<le> length ?c" by simp
    from evict_length(1) [OF d' this, of "\<lambda>e. lastAccessed (snd e)"] len cap True
    show ?thesis by simp
  next
    case False
    then show ?thesis by (simp add: map_size_def)
  qed
  have res: "translationCache_fast (cacheTranslation_with cap t key r s) =
      map_set key \<lparr> result = r, accessCount = 1, lastAccessed = t \<rparr> ?c1"
    unfolding cacheTranslation_with_def floor_fifth by (simp add: Let_def)
  show "distinct (map_keys (translationCache_fast (cacheTranslation_with cap t key r s)))"
    unfolding res map_keys_def using dc1 by (rule distinct_map_set)
  have "length (map_set key \<lparr> result = r, accessCount = 1, lastAccessed = t \<rparr> ?c1) \<le> cap"
    using l1 length_map_set_le [of key "\<lparr> result = r, accessCount = 1, lastAccessed = t \<rparr>" ?c1]
    by linarith
  then show "map_size (translationCache_fast (cacheTranslation_with cap t key r s)) \<le> cap"
    by (simp only: res map_size_def)
qed

lemma cacheTranslation_fast_bounded:
  "fast_bounded s \<Longrightarrow> fast_bounded (cacheTranslation_fast t key r s)"
  unfolding fast_bounded_def cacheTranslation_fast_def
  using cacheTranslation_with_bounded [of s MAX_CACHE_SIZE_fast t key r]
  by (simp add: MAX_CACHE_SIZE_fast_def)

lemma createTranslationResult_cache:
  "translationCache_fast (fst (createTranslationResult s a b c d e f g h)) = translationCache_fast s"
  by (simp add: createTranslationResult_def Let_def)

lemma createTranslationResult_bounded:
  "fast_bounded s \<Longrightarrow> fast_bounded (fst (createTranslationResult s a b c d e f g h))"
  by (simp add: fast_bounded_def createTranslationResult_cache)

lemma after_model_bounded:
  assumes "fast_bounded s"
  shows "fast_bounded (fst (after_model clock s text src tgt prov dflt out))"
  using assms
  by (cases out)
     (simp_all add: after_model_def split_beta createTranslationResult_bounded
        cacheTranslation_fast_bounded)

lemma translateText_fast_bounded:
  assumes "fast_bounded s"
  shows "fast_bounded (fst (translateText_fast clock s text src tgt))"
proof (cases "map_get (translationCache_fast s) (cacheKey_fast text src tgt)")
  case (Some cached)
  then have "cacheKey_fast text src tgt \<in> set (map fst (translationCache_fast s))"
    by (metis map_get_def map_of_eq_None_iff option.distinct(1) set_map)
  with assms Some show ?thesis
    using distinct_map_set [of "translationCache_fast s" "cacheKey_fast text src tgt"]
    by (simp add: translateText_fast_def Let_def fast_bounded_def map_keys_def map_size_def
        length_map_set)
next
  case None
  show ?thesis
    using after_model_bounded [OF assms] createTranslationResult_bounded [OF assms]
    by (simp add: translateText_fast_def Let_def None split_beta split: option.splits)
qed

lemma preload_cache: "translationCache_fast (preloadMarianModels env ps s) = translationCache_fast s"
  by (induction ps arbitrary: s) (simp_all split: option.splits)

lemma exec_fast_bounded: "fast_bounded s \<Longrightarrow> fast_bounded (exec_fast c s)"
proof (cases c)
  case (Initialize env)
  assume "fast_bounded s"
  then show ?thesis
    by (simp add: Initialize initialize_def Let_def fast_bounded_def preload_cache
        split: option.splits)
next
  case (Translate_fast clk a1 a2 a3)
  assume "fast_bounded s"
  then show ?thesis by (simp add: Translate_fast translateText_fast_bounded)
next
  case ClearCache_fast
  then show ?thesis by (simp add: clearCache_fast_def fast_bounded_def map_keys_def map_size_def)
next
  case Cleanup_fast
  then show ?thesis by (simp add: cleanup_fast_def fast_bounded_def map_keys_def map_size_def)
qed

lemma apply_op_fast_bounded: "fast_bounded s \<Longrightarrow> fast_bounded (apply_op_fast x s)"
  by (cases x) (simp_all add: exec_fast_bounded cacheTranslation_fast_bounded)

lemma run_fast_bounded: "fast_bounded s \<Longrightarrow> fast_bounded (fold apply_op_fast ops s)"
  by (induction ops arbitrary: s) (simp_all add: apply_op_fast_bounded)

lemma new_fast_bounded: "fast_bounded FastTranslationHelper_new"
  by (simp add: fast_bounded_def FastTranslationHelper_new_def map_size_def map_keys_def)

text \<open>
  C7. After any sequence of calls and direct insertions, starting from a new helper, the
  dispatcher's cache holds at most 1000 entries (its \<open>MAX_CACHE_SIZE\<close>, which no call
  changes) and the fast translation cache holds at most 2000.
\<close>

theorem cache_size_bounded:
  "map_size (translationCache (fold apply_op ops TranslationHelper_new)) \<le> 1000 \<and>
   MAX_CACHE_SIZE (fold apply_op ops TranslationHelper_new) = 1000 \<and>
   map_size (translationCache_fast (fold apply_op_fast fops FastTranslationHelper_new)) \<le> 2000"
  using run_bounded [OF new_bounded, of ops] run_fast_bounded [OF new_fast_bounded, of fops]
  by (simp add: th_bounded_def fast_bounded_def MAX_CACHE_SIZE_fast_def)


subsection \<open>What an insertion into a full cache evicts\<close>

lemma floor_fifth_div: "nat \<lfloor>real cap / 5\<rfloor> = cap div 5"
  using floor_fifth [of cap] by simp

lemma map_delete_first_distinct:
  "distinct (map fst (e # c)) \<Longrightarrow> map_delete (fst e) (e # c) = c"
  by (auto simp: map_delete_def filter_id_conv dest: fst_in_keys)

lemma sample_text_inj: "sample_text i = sample_text j \<Longrightarrow> i = j"
  by (auto simp: sample_text_def dest: arg_cong [where f = length])

lemma th_filled_keys:
  "map_keys (translationCache (th_filled n)) = map (\<lambda>i. cacheKey (sample_text i) ''en'' None) [0..<n]"
  by (simp add: th_filled_def map_keys_def o_def)

lemma th_filled_distinct: "distinct (map_keys (translationCache (th_filled n)))"
  unfolding th_filled_keys
  by (auto simp: distinct_map inj_on_def cacheKey_def dest: sample_text_inj)

lemma th_filled_size: "map_size (translationCache (th_filled n)) = n"
  by (simp add: th_filled_def map_size_def)

lemma th_filled_max: "MAX_CACHE_SIZE (th_filled n) = 1000"
  by (simp add: th_filled_def TranslationHelper_new_def)

lemma hola_not_in_th_filled:
  "cacheKey ''hola'' ''en'' None \<notin> set (map_keys (translationCache (th_filled n)))"
  unfolding th_filled_keys by (auto simp: cacheKey_def sample_text_def)

lemma fast_filled_keys:
  "map_keys (translationCache_fast (fast_filled n)) =
     map (\<lambda>i. cacheKey_fast (sample_text i) ''es'' ''en'') [0..<n]"
  by (simp add: fast_filled_def map_keys_def o_def sample_entry_fast_def)

lemma fast_filled_distinct: "distinct (map_keys (translationCache_fast (fast_filled n)))"
  unfolding fast_filled_keys
  by (auto simp: distinct_map inj_on_def cacheKey_fast_def dest: sample_text_inj)

lemma fast_filled_size: "map_size (translationCache_fast (fast_filled n)) = n"
  by (simp add: fast_filled_def map_size_def)

lemma hola_not_in_fast_filled:
  "cacheKey_fast ''hola'' ''es'' ''en'' \<notin> set (map_keys (translationCache_fast (fast_filled n)))"
  unfolding fast_filled_keys by (auto simp: cacheKey_fast_def sample_text_def)

lemma cacheTranslation_at_capacity:
  assumes "distinct (map_keys (translationCache h))"
    and "MAX_CACHE_SIZE h \<le> map_size (translationCache h)"
  shows "translationCache (cacheTranslation key r h) = map_set key r (tl (translationCache h))"
proof (cases "translationCache h")
  case Nil
  then show ?thesis by (simp add: cacheTranslation_def map_keys_def)
next
  case (Cons e c)
  with assms have "map_delete (fst e) (e # c) = c"
    by (simp add: map_keys_def map_delete_first_distinct del: distinct.simps)
  with assms Cons show ?thesis
    by (simp add: cacheTranslation_def map_keys_def)
qed

lemma cacheTranslation_removes_one:
  assumes "distinct (map_keys (translationCache h))"
    and "MAX_CACHE_SIZE h \<le> map_size (translationCache h)"
    and "translationCache h \<noteq> []"
  shows "\<exists>e \<in> set (translationCache h).
           translationCache (cacheTranslation key r h) = map_set key r (remove1 e (translationCache h))"
    and "key \<notin> set (map_keys (translationCache h)) \<Longrightarrow>
           map_size (translationCache (cacheTranslation key r h)) = map_size (translationCache h)"
proof -
  from assms(3) obtain e c where c: "translationCache h = e # c"
    by (cases "translationCache h") auto
  have res: "translationCache (cacheTranslation key r h) = map_set key r c"
    using cacheTranslation_at_capacity [OF assms(1,2), of key r] by (simp add: c)
  then have "translationCache (cacheTranslation key r h) =
      map_set key r (remove1 e (translationCache h))" by (simp add: c)
  moreover have "e \<in> set (translationCache h)" by (simp add: c)
  ultimately show "\<exists>e \<in> set (translationCache h).
      translationCache (cacheTranslation key r h) = map_set key r (remove1 e (translationCache h))"
    by blast
  assume "key \<notin> set (map_keys (translationCache h))"
  then have "key \<notin> set (map fst c)" by (simp add: c map_keys_def)
  then show "map_size (translationCache (cacheTranslation key r h)) = map_size (translationCache h)"
    unfolding res map_size_def length_map_set by (simp add: c)
qed

text \<open>
  C4, as amended. In the fast helper, an insertion that finds at least \<open>cap\<close> entries
  (\<open>cap\<close> is the constant 2000 of the code) sorts the entries by \<open>lastAccessed\<close>, removes
  exactly the first \<open>floor(cap * 0.2)\<close> of them, none of which was accessed later than
  an entry it keeps, and then inserts the new entry; a key that was not cached leaves
  \<open>size - floor(cap * 0.2) + 1\<close> entries. For the code's capacity this is a batch of 400.
  In the dispatcher (\<open>TranslationHelper\<close>) an insertion at capacity removes one entry
  only, not a batch: all entries but one are kept, and a key that was not cached leaves
  the size as it was.
\<close>

theorem eviction_batch:
  "(distinct (map_keys (translationCache_fast s)) \<and> cap \<le> map_size (translationCache_fast s) \<longrightarrow>
      (\<exists>removed kept.
         sort_key (\<lambda>e. lastAccessed (snd e)) (translationCache_fast s) = removed @ kept \<and>
         length removed = nat \<lfloor>real cap * 0.2\<rfloor> \<and>
         (\<forall>a \<in> set removed. \<forall>b \<in> set kept. lastAccessed (snd a) \<le> lastAccessed (snd b)) \<and>
         translationCache_fast (cacheTranslation_with cap t key r s) =
           map_set key \<lparr> result = r, accessCount = 1, lastAccessed = t \<rparr>
             (filter (\<lambda>e. e \<notin> set removed) (translationCache_fast s)) \<and>
         length (filter (\<lambda>e. e \<notin> set removed) (translationCache_fast s)) =
           map_size (translationCache_fast s) - nat \<lfloor>real cap * 0.2\<rfloor> \<and>
         (key \<notin> set (map_keys (translationCache_fast s)) \<longrightarrow>
            map_size (translationCache_fast (cacheTranslation_with cap t key r s)) =
              map_size (translationCache_fast s) - nat \<lfloor>real cap * 0.2\<rfloor> + 1))) \<and>
   cacheTranslation_fast = cacheTranslation_with 2000 \<and>
   nat \<lfloor>real 2000 * 0.2\<rfloor> = 400 \<and>
   (distinct (map_keys (translationCache h)) \<and> MAX_CACHE_SIZE h \<le> map_size (translationCache h) \<and>
    translationCache h \<noteq> [] \<longrightarrow>
      (\<exists>e \<in> set (translationCache h).
         translationCache (cacheTranslation key' r' h) =
           map_set key' r' (remove1 e (translationCache h))) \<and>
      (key' \<notin> set (map_keys (translationCache h)) \<longrightarrow>
         map_size (translationCache (cacheTranslation key' r' h)) = map_size (translationCache h)))"
proof (intro conjI impI)
  assume "distinct (map_keys (translationCache_fast s)) \<and> cap \<le> map_size (translationCache_fast s)"
  then have d: "distinct (map fst (translationCache_fast s))"
    and full: "cap \<le> map_size (translationCache_fast s)"
    by (simp_all add: map_keys_def map_size_def)
  from full have n: "cap div 5 \<le> length (translationCache_fast s)"
    by (simp add: map_size_def)
  let ?c = "translationCache_fast s"
  let ?f = "\<lambda>e. lastAccessed (snd e)"
  let ?removed = "take (cap div 5) (sort_key ?f ?c)"
  let ?kept = "drop (cap div 5) (sort_key ?f ?c)"
  let ?entry = "\<lparr> result = r, accessCount = 1, lastAccessed = t \<rparr>"
  have split: "sort_key ?f ?c = ?removed @ ?kept" by simp
  have len: "length ?removed = nat \<lfloor>real cap * 0.2\<rfloor>"
    unfolding floor_fifth using n by simp
  have "sorted (map ?f (?removed @ ?kept))" by (simp only: append_take_drop_id sorted_sort_key)
  then have older: "\<forall>a \<in> set ?removed. \<forall>b \<in> set ?kept. ?f a \<le> ?f b"
    by (simp only: map_append sorted_append set_map) blast
  have res: "translationCache_fast (cacheTranslation_with cap t key r s) =
      map_set key ?entry (filter (\<lambda>e. e \<notin> set ?removed) ?c)"
    unfolding cacheTranslation_with_def floor_fifth
    using full evict_length(2) [OF d n, of ?f] by (simp add: Let_def)
  have flen: "length (filter (\<lambda>e. e \<notin> set ?removed) ?c) =
      map_size ?c - nat \<lfloor>real cap * 0.2\<rfloor>"
    unfolding floor_fifth using evict_length [OF d n, of ?f] by (simp add: map_size_def)
  have fresh: "key \<notin> set (map_keys ?c) \<longrightarrow>
      map_size (translationCache_fast (cacheTranslation_with cap t key r s)) =
        map_size ?c - nat \<lfloor>real cap * 0.2\<rfloor> + 1"
  proof
    assume "key \<notin> set (map_keys ?c)"
    then have "key \<notin> set (map fst (filter (\<lambda>e. e \<notin> set ?removed) ?c))"
      by (auto simp: map_keys_def)
    then show "map_size (translationCache_fast (cacheTranslation_with cap t key r s)) =
        map_size ?c - nat \<lfloor>real cap * 0.2\<rfloor> + 1"
      unfolding res map_size_def length_map_set floor_fifth
      using flen by (simp add: map_size_def floor_fifth_div)
  qed
  from split len older res flen fresh
  show "\<exists>removed kept.
         sort_key ?f ?c = removed @ kept \<and>
         length removed = nat \<lfloor>real cap * 0.2\<rfloor> \<and>
         (\<forall>a \<in> set removed. \<forall>b \<in> set kept. lastAccessed (snd a) \<le> lastAccessed (snd b)) \<and>
         translationCache_fast (cacheTranslation_with cap t key r s) =
           map_set key ?entry (filter (\<lambda>e. e \<notin> set removed) ?c) \<and>
         length (filter (\<lambda>e. e \<notin> set removed) ?c) =
           map_size ?c - nat \<lfloor>real cap * 0.2\<rfloor> \<and>
         (key \<notin> set (map_keys ?c) \<longrightarrow>
            map_size (translationCache_fast (cacheTranslation_with cap t key r s)) =
              map_size ?c - nat \<lfloor>real cap * 0.2\<rfloor> + 1)"
    by blast
next
  show "cacheTranslation_fast = cacheTranslation_with 2000"
    by (simp add: cacheTranslation_fast_def MAX_CACHE_SIZE_fast_def)
next
  show "nat \<lfloor>real 2000 * 0.2\<rfloor> = 400" by (simp only: floor_fifth)
next
  assume a: "distinct (map_keys (translationCache h)) \<and> MAX_CACHE_SIZE h \<le> map_size (translationCache h) \<and>
    translationCache h \<noteq> []"
  then show "\<exists>e \<in> set (translationCache h).
         translationCache (cacheTranslation key' r' h) =
           map_set key' r' (remove1 e (translationCache h))"
    using cacheTranslation_removes_one(1) by blast
  assume "key' \<notin> set (map_keys (translationCache h))"
  with a show "map_size (translationCache (cacheTranslation key' r' h)) = map_size (translationCache h)"
    using cacheTranslation_removes_one(2) by blast
qed

theorem eviction_batch_witness:
  "distinct (map_keys (translationCache_fast (fast_filled 10))) \<and>
   10 \<le> map_size (translationCache_fast (fast_filled 10)) \<and>
   cacheKey_fast ''hola'' ''es'' ''en'' \<notin> set (map_keys (translationCache_fast (fast_filled 10))) \<and>
   map_size (translationCache_fast
     (cacheTranslation_with 10 0 (cacheKey_fast ''hola'' ''es'' ''en'') hola_result_fast (fast_filled 10))) = 9 \<and>
   distinct (map_keys (translationCache_fast (fast_filled 2000))) \<and>
   2000 \<le> map_size (translationCache_fast (fast_filled 2000)) \<and>
   map_size (translationCache_fast
     (cacheTranslation_fast 0 (cacheKey_fast ''hola'' ''es'' ''en'') hola_result_fast (fast_filled 2000))) = 1601 \<and>
   distinct (map_keys (translationCache (th_filled 1000))) \<and>
   MAX_CACHE_SIZE (th_filled 1000) \<le> map_size (translationCache (th_filled 1000)) \<and>
   translationCache (th_filled 1000) \<noteq> [] \<and>
   cacheKey ''hola'' ''en'' None \<notin> set (map_keys (translationCache (th_filled 1000))) \<and>
   map_size (translationCache
     (cacheTranslation (cacheKey ''hola'' ''en'' None) hola_result (th_filled 1000))) =
     map_size (translationCache (th_filled 1000))"
proof -
  let ?k = "cacheKey_fast ''hola'' ''es'' ''en''"
  have f10: "distinct (map_keys (translationCache_fast (fast_filled 10))) \<and>
             10 \<le> map_size (translationCache_fast (fast_filled 10))"
    by (simp add: fast_filled_distinct fast_filled_size)
  have f2000: "distinct (map_keys (translationCache_fast (fast_filled 2000))) \<and>
             2000 \<le> map_size (translationCache_fast (fast_filled 2000))"
    by (simp add: fast_filled_distinct fast_filled_size)
  have ne: "translationCache (th_filled 1000) \<noteq> []"
    using th_filled_size [of 1000] by (auto simp: map_size_def)
  have t1000: "distinct (map_keys (translationCache (th_filled 1000))) \<and>
      MAX_CACHE_SIZE (th_filled 1000) \<le> map_size (translationCache (th_filled 1000)) \<and>
      translationCache (th_filled 1000) \<noteq> []"
    using ne by (simp add: th_filled_distinct th_filled_size th_filled_max)
  have five: "nat \<lfloor>real 10 * 0.2\<rfloor> = 2" by (simp only: floor_fifth)
  note a = eviction_batch [of "fast_filled 10" 10 0 ?k hola_result_fast "th_filled 1000"
      "cacheKey ''hola'' ''en'' None" hola_result]
  note b = eviction_batch [of "fast_filled 2000" 2000 0 ?k hola_result_fast "th_filled 1000"
      "cacheKey ''hola'' ''en'' None" hola_result]
  from a f10 hola_not_in_fast_filled [of 10]
  have s10: "map_size (translationCache_fast (cacheTranslation_with 10 0 ?k hola_result_fast (fast_filled 10))) =
      map_size (translationCache_fast (fast_filled 10)) - nat \<lfloor>real 10 * 0.2\<rfloor> + 1"
    by blast
  from b f2000 hola_not_in_fast_filled [of 2000]
  have s2000: "map_size (translationCache_fast (cacheTranslation_with 2000 0 ?k hola_result_fast (fast_filled 2000))) =
      map_size (translationCache_fast (fast_filled 2000)) - nat \<lfloor>real 2000 * 0.2\<rfloor> + 1"
    by blast
  from b have fast: "cacheTranslation_fast = cacheTranslation_with 2000"
    and c400: "nat \<lfloor>real 2000 * 0.2\<rfloor> = 400" by blast+
  from a t1000 hola_not_in_th_filled [of 1000]
  have th: "map_size (translationCache
     (cacheTranslation (cacheKey ''hola'' ''en'' None) hola_result (th_filled 1000))) =
     map_size (translationCache (th_filled 1000))"
    by blast
  from s10 five have r10: "map_size (translationCache_fast
     (cacheTranslation_with 10 0 ?k hola_result_fast (fast_filled 10))) = 9"
    by (simp only: fast_filled_size)
  from s2000 c400 have r2000: "map_size (translationCache_fast
     (cacheTranslation_fast 0 ?k hola_result_fast (fast_filled 2000))) = 1601"
    by (simp only: fast_filled_size fast)
  from f10 f2000 t1000 hola_not_in_fast_filled [of 10] hola_not_in_th_filled [of 1000]
    r10 r2000 th show ?thesis by blast
qed

subsection \<open>The provider loop of the dispatcher\<close>

lemma invoke_cases:
  "(\<exists>r. invoke w n tx tgt src k = (Returns r, k) \<and> n \<in> {''gemini'', ''google''} \<and>
        fst (invoke w n tx tgt src 0) = Returns r) \<or>
   (fst (invoke w n tx tgt src k) = Throws \<and> fst (invoke w n tx tgt src 0) = Throws) \<or>
   (fst (invoke w n tx tgt src k) = Null \<and> fst (invoke w n tx tgt src 0) = Null) \<or>
   (n = ''offline'' \<and> invoke w n tx tgt src k = (Returns (translateOffline (now w k) tx tgt src), Suc k))"
  by (cases "translateWithGemini w tx tgt src"; cases "translateWithGoogle w tx tgt src")
     (auto simp: invoke_def)

lemma accepts_any_clock:
  "(case fst (invoke w (name p) tx tgt src k) of Returns r \<Rightarrow> confidence r > 0.5 | _ \<Rightarrow> False)
     = accepts w tx tgt src p"
  using invoke_cases [of w "name p" tx tgt src k]
  by (auto simp: accepts_def invoke_def translateOffline_def)

lemma try_rejected:
  assumes "enabled p" "\<not> accepts w tx tgt src p"
  shows "try_providers w tx tgt src (p # ps) k =
     (case try_providers w tx tgt src ps (snd (invoke w (name p) tx tgt src k)) of
        (res, tr, k'') \<Rightarrow> (res, name p # tr, k''))"
  using assms(2) accepts_any_clock [of w p tx tgt src k] assms(1)
  by (cases "invoke w (name p) tx tgt src k"; cases "fst (invoke w (name p) tx tgt src k)")
     (auto split: outcome.splits)

lemma try_accepted:
  assumes "enabled p" "accepts w tx tgt src p"
  shows "\<exists>r k'. invoke w (name p) tx tgt src k = (Returns r, k') \<and> confidence r > 0.5 \<and>
           try_providers w tx tgt src (p # ps) k = (Some r, [name p], k')"
  using assms(2) accepts_any_clock [of w p tx tgt src k] assms(1)
  by (cases "invoke w (name p) tx tgt src k"; cases "fst (invoke w (name p) tx tgt src k)")
     (auto split: outcome.splits)

lemma try_disabled:
  "\<not> enabled p \<Longrightarrow> try_providers w tx tgt src (p # ps) k = try_providers w tx tgt src ps k"
  by simp

lemma try_providers_none:
  "\<forall>p \<in> set ps. enabled p \<longrightarrow> \<not> accepts w tx tgt src p \<Longrightarrow>
     \<exists>k'. try_providers w tx tgt src ps k = (None, map name (filter enabled ps), k')"
proof (induction ps arbitrary: k)
  case Nil
  then show ?case by simp
next
  case (Cons p ps)
  show ?case
  proof (cases "enabled p")
    case False
    with Cons show ?thesis by simp
  next
    case True
    with Cons.prems have rej: "\<not> accepts w tx tgt src p" by simp
    from Cons.prems have "\<forall>p \<in> set ps. enabled p \<longrightarrow> \<not> accepts w tx tgt src p" by simp
    from Cons.IH [OF this, of "snd (invoke w (name p) tx tgt src k)"]
    obtain k' where "try_providers w tx tgt src ps (snd (invoke w (name p) tx tgt src k)) =
        (None, map name (filter enabled ps), k')" by blast
    with True show ?thesis by (simp only: try_rejected [OF True rej]) simp
  qed
qed

lemma try_providers_some:
  assumes "find (accepts w tx tgt src) (filter enabled ps) = Some p"
  shows "\<exists>r k0 k'. invoke w (name p) tx tgt src k0 = (Returns r, k') \<and> confidence r > 0.5 \<and>
           try_providers w tx tgt src ps k =
             (Some r,
              map name (takeWhile (\<lambda>q. \<not> accepts w tx tgt src q) (filter enabled ps)) @ [name p],
              k')"
  using assms
proof (induction ps arbitrary: k)
  case Nil
  then show ?case by simp
next
  case (Cons q ps)
  show ?case
  proof (cases "enabled q")
    case False
    with Cons show ?thesis by simp
  next
    case True
    show ?thesis
    proof (cases "accepts w tx tgt src q")
      case acc: True
      with True Cons.prems have "q = p" by simp
      with try_accepted [OF True acc, of k ps] True acc show ?thesis by auto
    next
      case rej: False
      with True Cons.prems have "find (accepts w tx tgt src) (filter enabled ps) = Some p" by simp
      from Cons.IH [OF this, of "snd (invoke w (name q) tx tgt src k)"]
      obtain r k0 k' where h: "invoke w (name p) tx tgt src k0 = (Returns r, k')" "confidence r > 0.5"
        "try_providers w tx tgt src ps (snd (invoke w (name q) tx tgt src k)) =
             (Some r,
              map name (takeWhile (\<lambda>q. \<not> accepts w tx tgt src q) (filter enabled ps)) @ [name p],
              k')" by blast
      have "try_providers w tx tgt src (q # ps) k =
             (Some r,
              map name (takeWhile (\<lambda>q. \<not> accepts w tx tgt src q) (filter enabled (q # ps))) @ [name p],
              k')"
        using True rej h(3) by (simp only: try_rejected [OF True rej]) simp
      with h(1,2) show ?thesis by blast
    qed
  qed
qed

lemma translateText_miss:
  assumes "map_get (translationCache s) (cacheKey tx (target_or_en tgt) src) = None"
  shows "translateText w s tx tgt src =
     (case try_providers w tx (target_or_en tgt) src (sort_key priority (providers s)) 0 of
        (Some r, tr, k) \<Rightarrow>
          (cacheTranslation (cacheKey tx (target_or_en tgt) src) r (sorted_providers s), r, tr)
      | (None, tr, k) \<Rightarrow> (sorted_providers s, fallback (now w k) tx src, tr))"
  using assms unfolding translateText_def target_or_en_def sorted_providers_def Let_def by simp

lemma translateText_hit:
  assumes "map_get (translationCache s) (cacheKey tx (target_or_en tgt) src) = Some r"
  shows "translateText w s tx tgt src = (s, r, [])"
  using assms by (simp add: translateText_def target_or_en_def Let_def)

lemma get_after_cacheTranslation:
  "map_get (translationCache (cacheTranslation key r s)) key = Some r"
  by (simp add: cacheTranslation_def Let_def map_get_def map_of_map_set)

lemma find_None_candidates:
  "find P (filter enabled ps) = None \<longleftrightarrow> (\<forall>p \<in> set ps. enabled p \<longrightarrow> \<not> P p)"
  by (auto simp: find_None_iff)

text \<open>
  C5. On a cache miss, \<open>translateText\<close> goes through the enabled providers in ascending
  priority order (disabled ones are skipped). When none of them accepts, all of them
  have been invoked and the fallback is returned. Otherwise the providers before the
  first accepting one have been invoked and passed over (each threw, returned \<open>null\<close>, or
  returned a confidence of at most 0.5), the accepting provider's result, whose
  confidence is above 0.5, is returned, and it is in the cache under the request's key.
\<close>

theorem translateText_dispatch:
  "map_get (translationCache s) (cacheKey tx (target_or_en tgt) src) = None \<longrightarrow>
     sorted (map priority (candidates s)) \<and>
     set (candidates s) = {p \<in> set (providers s). enabled p} \<and>
     (case find (accepts w tx (target_or_en tgt) src) (candidates s) of
        None \<Rightarrow>
          (\<exists>k. translateText w s tx tgt src =
             (sorted_providers s, fallback (now w k) tx src, map name (candidates s)))
      | Some p \<Rightarrow>
          (\<exists>r k0 k'. invoke w (name p) tx (target_or_en tgt) src k0 = (Returns r, k') \<and>
             confidence r > 0.5 \<and>
             translateText w s tx tgt src =
               (cacheTranslation (cacheKey tx (target_or_en tgt) src) r (sorted_providers s), r,
                map name (takeWhile (\<lambda>q. \<not> accepts w tx (target_or_en tgt) src q) (candidates s))
                  @ [name p]) \<and>
             map_get (translationCache (fst (translateText w s tx tgt src)))
               (cacheKey tx (target_or_en tgt) src) = Some r))"
proof (intro impI conjI)
  show "sorted (map priority (candidates s))"
    unfolding candidates_def by (rule sorted_filter) (rule sorted_sort_key)
  show "set (candidates s) = {p \<in> set (providers s). enabled p}"
    by (auto simp: candidates_def)
  assume miss: "map_get (translationCache s) (cacheKey tx (target_or_en tgt) src) = None"
  let ?tl = "target_or_en tgt"
  show "case find (accepts w tx ?tl src) (candidates s) of
        None \<Rightarrow>
          (\<exists>k. translateText w s tx tgt src =
             (sorted_providers s, fallback (now w k) tx src, map name (candidates s)))
      | Some p \<Rightarrow>
          (\<exists>r k0 k'. invoke w (name p) tx ?tl src k0 = (Returns r, k') \<and>
             confidence r > 0.5 \<and>
             translateText w s tx tgt src =
               (cacheTranslation (cacheKey tx ?tl src) r (sorted_providers s), r,
                map name (takeWhile (\<lambda>q. \<not> accepts w tx ?tl src q) (candidates s))
                  @ [name p]) \<and>
             map_get (translationCache (fst (translateText w s tx tgt src)))
               (cacheKey tx ?tl src) = Some r)"
  proof (cases "find (accepts w tx ?tl src) (candidates s)")
    case None
    then have "\<forall>p \<in> set (sort_key priority (providers s)). enabled p \<longrightarrow> \<not> accepts w tx ?tl src p"
      unfolding candidates_def find_None_candidates .
    from try_providers_none [OF this, of 0]
    obtain k' where "try_providers w tx ?tl src (sort_key priority (providers s)) 0 =
        (None, map name (candidates s), k')" unfolding candidates_def by blast
    then have "translateText w s tx tgt src =
        (sorted_providers s, fallback (now w k') tx src, map name (candidates s))"
      by (simp add: translateText_miss [OF miss])
    with None show ?thesis by auto
  next
    case (Some p)
    from try_providers_some [OF Some [unfolded candidates_def], of 0]
    obtain r k0 k' where h: "invoke w (name p) tx ?tl src k0 = (Returns r, k')" "confidence r > 0.5"
      "try_providers w tx ?tl src (sort_key priority (providers s)) 0 =
         (Some r, map name (takeWhile (\<lambda>q. \<not> accepts w tx ?tl src q) (candidates s)) @ [name p], k')"
      unfolding candidates_def by blast
    from h(3) have t: "translateText w s tx tgt src =
        (cacheTranslation (cacheKey tx ?tl src) r (sorted_providers s), r,
         map name (takeWhile (\<lambda>q. \<not> accepts w tx ?tl src q) (candidates s)) @ [name p])"
      by (simp add: translateText_miss [OF miss])
    then have "map_get (translationCache (fst (translateText w s tx tgt src))) (cacheKey tx ?tl src) = Some r"
      by (simp add: get_after_cacheTranslation)
    with h(1,2) t Some show ?thesis by auto
  qed
qed


lemma new_miss: "map_get (translationCache TranslationHelper_new) k = None"
  by (simp add: TranslationHelper_new_def map_get_def)

lemma candidates_new:
  "candidates TranslationHelper_new =
     [\<lparr> name = ''gemini'', enabled = True, priority = 1 \<rparr>,
      \<lparr> name = ''google'', enabled = True, priority = 2 \<rparr>,
      \<lparr> name = ''offline'', enabled = True, priority = 3 \<rparr>]"
  by (simp add: candidates_def TranslationHelper_new_def)

lemma accepts_google:
  "\<not> accepts world_google ''hola'' ''en'' None \<lparr> name = ''gemini'', enabled = True, priority = 1 \<rparr>"
  "accepts world_google ''hola'' ''en'' None \<lparr> name = ''google'', enabled = True, priority = 2 \<rparr>"
  by (simp_all add: accepts_def invoke_def world_google_def)

theorem translateText_dispatch_witness:
  "map_get (translationCache TranslationHelper_new) (cacheKey ''hola'' (target_or_en None) None) = None \<and>
   snd (snd (translateText world_google TranslationHelper_new ''hola'' None None)) = [''gemini'', ''google''] \<and>
   provider (fst (snd (translateText world_google TranslationHelper_new ''hola'' None None))) = ''google'' \<and>
   map_get (translationCache (fst (translateText world_google TranslationHelper_new ''hola'' None None)))
     (cacheKey ''hola'' (target_or_en None) None) =
     Some (fst (snd (translateText world_google TranslationHelper_new ''hola'' None None)))"
proof -
  let ?g = "\<lparr> name = ''google'', enabled = True, priority = 2 \<rparr>"
  have f: "find (accepts world_google ''hola'' (target_or_en None) None) (candidates TranslationHelper_new)
      = Some ?g"
    using accepts_google by (simp add: candidates_new target_or_en_def)
  have tw: "takeWhile (\<lambda>q. \<not> accepts world_google ''hola'' (target_or_en None) None q)
      (candidates TranslationHelper_new) = [\<lparr> name = ''gemini'', enabled = True, priority = 1 \<rparr>]"
    using accepts_google by (simp add: candidates_new target_or_en_def)
  from translateText_dispatch [of TranslationHelper_new "''hola''" None None world_google] new_miss
  obtain r k0 k' where
    h: "invoke world_google (name ?g) ''hola'' (target_or_en None) None k0 = (Returns r, k')"
       "translateText world_google TranslationHelper_new ''hola'' None None =
               (cacheTranslation (cacheKey ''hola'' (target_or_en None) None) r (sorted_providers TranslationHelper_new), r,
                map name (takeWhile (\<lambda>q. \<not> accepts world_google ''hola'' (target_or_en None) None q) (candidates TranslationHelper_new))
                  @ [name ?g])"
       "map_get (translationCache (fst (translateText world_google TranslationHelper_new ''hola'' None None)))
               (cacheKey ''hola'' (target_or_en None) None) = Some r"
    unfolding f by auto
  from h(1) have "provider r = ''google''"
    by (auto simp: invoke_def world_google_def)
  with h(2,3) tw new_miss show ?thesis by simp
qed


subsection \<open>When every provider is exhausted\<close>

lemma sorted_providers_cache [simp]:
  "translationCache (sorted_providers s) = translationCache s"
  by (simp add: sorted_providers_def)

lemma sorted_providers_idem: "sorted_providers (sorted_providers s) = sorted_providers s"
  by (simp add: sorted_providers_def sort_key_id_if_sorted)

lemma candidates_sorted_providers: "candidates (sorted_providers s) = candidates s"
  by (simp add: candidates_def sorted_providers_def sort_key_id_if_sorted)

lemma translateText_exhausted:
  assumes miss: "map_get (translationCache s) (cacheKey tx (target_or_en tgt) src) = None"
    and rej: "\<forall>p \<in> set (providers s). enabled p \<longrightarrow> \<not> accepts w tx (target_or_en tgt) src p"
  shows "\<exists>k. translateText w s tx tgt src =
           (sorted_providers s, fallback (now w k) tx src, map name (candidates s))"
proof -
  from rej have "\<forall>p \<in> set (sort_key priority (providers s)).
      enabled p \<longrightarrow> \<not> accepts w tx (target_or_en tgt) src p" by simp
  from try_providers_none [OF this, of 0]
  obtain k' where "try_providers w tx (target_or_en tgt) src (sort_key priority (providers s)) 0 =
      (None, map name (candidates s), k')" unfolding candidates_def by blast
  then have "translateText w s tx tgt src =
      (sorted_providers s, fallback (now w k') tx src, map name (candidates s))"
    by (simp add: translateText_miss [OF miss])
  then show ?thesis by blast
qed

text \<open>
  C2, as amended. On a cache miss on which no enabled provider accepts, \<open>translateText\<close>
  returns the fallback: the translated text is the original text, the confidence is 0,
  the provider is \<open>offline\<close>, the detected language is the requested source language or
  \<open>unknown\<close>. Every enabled provider has been invoked, the cache is unchanged and still
  has no entry for the request, and an identical request that follows invokes every
  enabled provider again.
\<close>

theorem fallback_not_cached:
  "map_get (translationCache s) (cacheKey tx (target_or_en tgt) src) = None \<and>
   (\<forall>p \<in> set (providers s). enabled p \<longrightarrow> \<not> accepts w tx (target_or_en tgt) src p) \<and>
   (\<forall>p \<in> set (providers s). enabled p \<longrightarrow> \<not> accepts w2 tx (target_or_en tgt) src p) \<longrightarrow>
     (\<exists>k. translateText w s tx tgt src =
        (sorted_providers s,
         \<lparr> originalText = tx, translatedText = tx, pinyin = None, tones = None, confidence = 0,
           provider = ''offline'', detectedLanguage = or_else src ''unknown'',
           timestamp = now w k \<rparr>,
         map name (candidates s))) \<and>
     translationCache (fst (translateText w s tx tgt src)) = translationCache s \<and>
     map_get (translationCache (fst (translateText w s tx tgt src)))
       (cacheKey tx (target_or_en tgt) src) = None \<and>
     snd (snd (translateText w2 (fst (translateText w s tx tgt src)) tx tgt src)) =
       map name (candidates s) \<and>
     snd (snd (translateText w2 (fst (translateText w s tx tgt src)) tx tgt src)) =
       snd (snd (translateText w s tx tgt src))"
proof (intro impI)
  assume a: "map_get (translationCache s) (cacheKey tx (target_or_en tgt) src) = None \<and>
   (\<forall>p \<in> set (providers s). enabled p \<longrightarrow> \<not> accepts w tx (target_or_en tgt) src p) \<and>
   (\<forall>p \<in> set (providers s). enabled p \<longrightarrow> \<not> accepts w2 tx (target_or_en tgt) src p)"
  then have miss: "map_get (translationCache s) (cacheKey tx (target_or_en tgt) src) = None"
    and rej: "\<forall>p \<in> set (providers s). enabled p \<longrightarrow> \<not> accepts w tx (target_or_en tgt) src p"
    and rej2: "\<forall>p \<in> set (providers s). enabled p \<longrightarrow> \<not> accepts w2 tx (target_or_en tgt) src p"
    by blast+
  from translateText_exhausted [OF miss rej] obtain k where
    first: "translateText w s tx tgt src =
           (sorted_providers s, fallback (now w k) tx src, map name (candidates s))" by blast
  have miss': "map_get (translationCache (sorted_providers s)) (cacheKey tx (target_or_en tgt) src) = None"
    using miss by simp
  have rej': "\<forall>p \<in> set (providers (sorted_providers s)).
      enabled p \<longrightarrow> \<not> accepts w2 tx (target_or_en tgt) src p"
    using rej2 by (simp add: sorted_providers_def)
  from translateText_exhausted [OF miss' rej'] obtain k2 where
    second: "translateText w2 (sorted_providers s) tx tgt src =
           (sorted_providers s, fallback (now w2 k2) tx src, map name (candidates s))"
    by (auto simp: sorted_providers_idem candidates_sorted_providers)
  from first have ex: "\<exists>k. translateText w s tx tgt src =
        (sorted_providers s,
         \<lparr> originalText = tx, translatedText = tx, pinyin = None, tones = None, confidence = 0,
           provider = ''offline'', detectedLanguage = or_else src ''unknown'',
           timestamp = now w k \<rparr>,
         map name (candidates s))"
    unfolding fallback_def by blast
  from first second miss ex show
    "(\<exists>k. translateText w s tx tgt src =
        (sorted_providers s,
         \<lparr> originalText = tx, translatedText = tx, pinyin = None, tones = None, confidence = 0,
           provider = ''offline'', detectedLanguage = or_else src ''unknown'',
           timestamp = now w k \<rparr>,
         map name (candidates s))) \<and>
     translationCache (fst (translateText w s tx tgt src)) = translationCache s \<and>
     map_get (translationCache (fst (translateText w s tx tgt src)))
       (cacheKey tx (target_or_en tgt) src) = None \<and>
     snd (snd (translateText w2 (fst (translateText w s tx tgt src)) tx tgt src)) =
       map name (candidates s) \<and>
     snd (snd (translateText w2 (fst (translateText w s tx tgt src)) tx tgt src)) =
       snd (snd (translateText w s tx tgt src))"
    by simp
qed

lemma rejects_down:
  "\<forall>p \<in> set (providers TranslationHelper_new).
     enabled p \<longrightarrow> \<not> accepts world_down ''hola'' (target_or_en None) None p"
  by (simp add: TranslationHelper_new_def accepts_def invoke_def world_down_def translateOffline_def)

theorem fallback_not_cached_witness:
  "map_get (translationCache TranslationHelper_new) (cacheKey ''hola'' (target_or_en None) None) = None \<and>
   \<not> list_ex (accepts world_down ''hola'' (target_or_en None) None)
       (filter enabled (providers TranslationHelper_new)) \<and>
   translationCache (fst (translateText world_down TranslationHelper_new ''hola'' None None)) = [] \<and>
   snd (snd (translateText world_down TranslationHelper_new ''hola'' None None)) =
     [''gemini'', ''google'', ''offline''] \<and>
   snd (snd (translateText world_down
      (fst (translateText world_down TranslationHelper_new ''hola'' None None)) ''hola'' None None)) =
     [''gemini'', ''google'', ''offline'']"
proof -
  note t = fallback_not_cached [of TranslationHelper_new "''hola''" None None world_down world_down]
  have c: "translationCache TranslationHelper_new = []" by (simp add: TranslationHelper_new_def)
  from rejects_down have "\<not> list_ex (accepts world_down ''hola'' (target_or_en None) None)
       (filter enabled (providers TranslationHelper_new))"
    by (simp add: list_ex_iff)
  with t new_miss rejects_down show ?thesis
    by (auto simp: candidates_new c)
qed

text \<open>
  C2 as stated fails on the provider tag: with every remote provider down, the fallback
  (confidence 0, after all three providers were invoked) is tagged \<open>offline\<close>, not
  \<open>none\<close>.
\<close>

theorem fallback_provider_counterexample:
  "map_get (translationCache TranslationHelper_new) (cacheKey ''hola'' ''en'' None) = None \<and>
   snd (snd (translateText world_down TranslationHelper_new ''hola'' None None)) =
     [''gemini'', ''google'', ''offline''] \<and>
   confidence (fst (snd (translateText world_down TranslationHelper_new ''hola'' None None))) = 0 \<and>
   provider (fst (snd (translateText world_down TranslationHelper_new ''hola'' None None))) \<noteq> ''none''"
proof -
  from translateText_exhausted [OF new_miss rejects_down]
  obtain k where "translateText world_down TranslationHelper_new ''hola'' None None =
     (sorted_providers TranslationHelper_new, fallback (now world_down k) ''hola'' None,
      map name (candidates TranslationHelper_new))" by blast
  then show ?thesis by (simp add: new_miss candidates_new fallback_def)
qed


subsection \<open>The confidence of cached results\<close>

lemma list_all_map_set:
  "list_all P (map snd m) \<Longrightarrow> P v \<Longrightarrow> list_all P (map snd (map_set k v m))"
  by (induction m) auto

lemma list_all_map_delete:
  "list_all P (map snd m) \<Longrightarrow> list_all P (map snd (map_delete k m))"
  by (induction m) (auto simp: map_delete_def)

lemma list_all_fold_delete:
  "list_all P (map snd c) \<Longrightarrow> list_all P (map snd (fold (\<lambda>e m. map_delete (fst e) m) es c))"
  by (induction es arbitrary: c) (simp_all add: list_all_map_delete)

lemma try_providers_confident:
  "try_providers w tx tgt src ps k = (Some r, tr, k') \<Longrightarrow> confident r"
proof (induction ps arbitrary: k tr)
  case Nil
  then show ?case by simp
next
  case (Cons p ps)
  then show ?case
    unfolding confident_def by (auto split: if_splits prod.splits outcome.splits)
qed

lemma cacheTranslation_confident:
  assumes "list_all confident (map snd (translationCache s))" "confident r"
  shows "list_all confident (map snd (translationCache (cacheTranslation key r s)))"
proof -
  let ?c = "translationCache s"
  let ?c1 = "if map_size ?c \<ge> MAX_CACHE_SIZE s
             then (case map_keys ?c of [] \<Rightarrow> ?c | firstKey # _ \<Rightarrow> map_delete firstKey ?c)
             else ?c"
  have "list_all confident (map snd ?c1)"
    using assms(1) by (simp add: list_all_map_delete split: list.splits)
  then have "list_all confident (map snd (map_set key r ?c1))"
    using assms(2) by (rule list_all_map_set)
  then show ?thesis by (simp add: cacheTranslation_def Let_def)
qed

lemma translateText_confident:
  assumes "list_all confident (map snd (translationCache s))"
  shows "list_all confident (map snd (translationCache (fst (translateText w s tx tgt src))))"
proof (cases "map_get (translationCache s) (cacheKey tx (target_or_en tgt) src)")
  case (Some r)
  with assms show ?thesis by (simp add: translateText_hit)
next
  case None
  obtain res tr k where t: "try_providers w tx (target_or_en tgt) src (sort_key priority (providers s)) 0
      = (res, tr, k)" by (metis prod_cases3)
  show ?thesis
  proof (cases res)
    case None': None
    with t assms show ?thesis by (simp add: translateText_miss [OF None])
  next
    case (Some r)
    with t have "confident r" by (simp add: try_providers_confident)
    with assms have "list_all confident (map snd (translationCache
        (cacheTranslation (cacheKey tx (target_or_en tgt) src) r (sorted_providers s))))"
      by (simp add: cacheTranslation_confident)
    with t Some show ?thesis by (simp add: translateText_miss [OF None])
  qed
qed

lemma exec_confident:
  "list_all confident (map snd (translationCache s)) \<Longrightarrow>
   list_all confident (map snd (translationCache (exec c s)))"
proof (cases c)
  case (Translate w a1 a2 a3)
  assume "list_all confident (map snd (translationCache s))"
  then show ?thesis using Translate by (simp add: translateText_confident)
qed (simp_all add: setProviderEnabled_def clearCache_def cleanup_def)

lemma run_confident:
  "list_all confident (map snd (translationCache s)) \<Longrightarrow>
   list_all confident (map snd (translationCache (fold exec calls s)))"
  by (induction calls arbitrary: s) (simp_all add: exec_confident)

lemma score_or_nonzero: "d \<noteq> 0 \<Longrightarrow> score_or sc d \<noteq> 0"
  by (simp add: score_or_def split: option.splits)

lemma cacheTranslation_fast_from_model:
  assumes "list_all (\<lambda>e. from_model (result e)) (map snd (translationCache_fast s))" "from_model r"
  shows "list_all (\<lambda>e. from_model (result e))
           (map snd (translationCache_fast (cacheTranslation_fast t key r s)))"
proof -
  let ?P = "\<lambda>e. from_model (result e)"
  let ?c = "translationCache_fast s"
  let ?c1 = "if map_size ?c \<ge> MAX_CACHE_SIZE_fast
             then fold (\<lambda>e m. map_delete (fst e) m)
                    (take (nat \<lfloor>real MAX_CACHE_SIZE_fast * 0.2\<rfloor>)
                       (sort_key (\<lambda>e. lastAccessed (snd e)) ?c)) ?c
             else ?c"
  have "list_all ?P (map snd ?c1)"
    using assms(1) by (simp add: list_all_fold_delete)
  then have "list_all ?P (map snd (map_set key \<lparr> result = r, accessCount = 1, lastAccessed = t \<rparr> ?c1))"
    using assms(2) by (simp add: list_all_map_set)
  then show ?thesis
    unfolding cacheTranslation_fast_def cacheTranslation_with_def Let_def by simp
qed

lemma createTranslationResult_result:
  "provider (snd (createTranslationResult s a b c d p cf l t)) = p"
  "confidence (snd (createTranslationResult s a b c d p cf l t)) = cf"
  by (simp_all add: createTranslationResult_def Let_def)

lemma after_model_from_model:
  assumes "list_all (\<lambda>e. from_model (result e)) (map snd (translationCache_fast s))"
    and "prov = ''marian'' \<or> prov = ''m2m100''" "dflt \<noteq> 0"
  shows "list_all (\<lambda>e. from_model (result e))
     (map snd (translationCache_fast (fst (after_model clock s tx src tgt prov dflt out))))"
proof (cases out)
  case ModelThrows
  with assms(1) show ?thesis by (simp add: after_model_def createTranslationResult_cache)
next
  case (ModelReturns tt sc)
  let ?cr = "createTranslationResult s tx tt src tgt prov (score_or sc dflt) (clock 1 - clock 0) (clock 2)"
  have fm: "from_model (snd ?cr)"
    using assms(2,3) by (simp add: from_model_def createTranslationResult_result score_or_nonzero)
  have "list_all (\<lambda>e. from_model (result e)) (map snd (translationCache_fast (fst ?cr)))"
    using assms(1) by (simp add: createTranslationResult_cache)
  from cacheTranslation_fast_from_model [OF this fm]
  show ?thesis by (simp add: after_model_def ModelReturns split_beta)
qed

lemma map_get_list_all:
  "map_get m k = Some v \<Longrightarrow> list_all P (map snd m) \<Longrightarrow> P v"
  by (auto simp: map_get_def list_all_iff dest!: map_of_SomeD)

lemma translateText_fast_from_model:
  assumes "list_all (\<lambda>e. from_model (result e)) (map snd (translationCache_fast s))"
  shows "list_all (\<lambda>e. from_model (result e))
     (map snd (translationCache_fast (fst (translateText_fast clock s tx src tgt))))"
proof (cases "map_get (translationCache_fast s) (cacheKey_fast tx src tgt)")
  case (Some cached)
  from map_get_list_all [OF Some assms] have "from_model (result cached)" .
  then have "list_all (\<lambda>e. from_model (result e))
      (map snd (map_set (cacheKey_fast tx src tgt)
         (cached\<lparr> accessCount := accessCount cached + 1, lastAccessed := clock 1 \<rparr>)
         (translationCache_fast s)))"
    using assms by (simp add: list_all_map_set)
  then show ?thesis
    using Some by (simp add: translateText_fast_def Let_def)
next
  case None
  show ?thesis
    using after_model_from_model [OF assms, of "''marian''" "0.8" clock tx src tgt]
      after_model_from_model [OF assms, of "''m2m100''" "0.7" clock tx src tgt] assms
    by (simp add: translateText_fast_def Let_def None split_beta createTranslationResult_cache
        split: option.splits)
qed

lemma exec_fast_from_model:
  assumes "list_all (\<lambda>e. from_model (result e)) (map snd (translationCache_fast s))"
  shows "list_all (\<lambda>e. from_model (result e)) (map snd (translationCache_fast (exec_fast c s)))"
proof (cases c)
  case (Initialize env)
  with assms show ?thesis
    by (simp add: initialize_def Let_def preload_cache split: option.splits)
next
  case (Translate_fast clk a1 a2 a3)
  with assms show ?thesis by (simp add: translateText_fast_from_model)
qed (simp_all add: clearCache_fast_def cleanup_fast_def)

lemma run_fast_from_model:
  "list_all (\<lambda>e. from_model (result e)) (map snd (translationCache_fast s)) \<Longrightarrow>
   list_all (\<lambda>e. from_model (result e)) (map snd (translationCache_fast (fold exec_fast calls s)))"
  by (induction calls arbitrary: s) (simp_all add: exec_fast_from_model)

lemma fast_run_low:
  "translationCache_fast (fold exec_fast [Initialize load_low, Translate_fast int ''hola'' ''es'' ''en'']
      FastTranslationHelper_new) =
   [(''hola|es|en'',
     \<lparr> result = \<lparr> originalText = ''hola'', translatedText = ''hello'', pinyin = None, tones = None,
                  confidence = 0.3, provider = ''m2m100'', detectedLanguage = ''es'', timestamp = 2,
                  latency = 1, isSubtitle = True \<rparr>,
       accessCount = 1, lastAccessed = 3 \<rparr>)]"
  by (simp add: initialize_def load_low_def FastTranslationHelper_new_def map_get_def marianModels_def
      translateText_fast_def after_model_def createTranslationResult_def cacheTranslation_fast_def
      cacheTranslation_with_def MAX_CACHE_SIZE_fast_def map_size_def score_or_def
      supportedLanguages_def or_else_def cacheKey_fast_def Let_def)

lemma th_run_google:
  "translationCache (fold exec [Translate world_google ''hola'' None None] TranslationHelper_new) =
   [(''hola-en-auto'',
     \<lparr> originalText = ''hola'', translatedText = ''hello'', pinyin = None, tones = None,
       confidence = 0.7, provider = ''google'', detectedLanguage = ''unknown'', timestamp = 0 \<rparr>)]"
  by (simp add: translateText_def TranslationHelper_new_def map_get_def cacheKey_def or_else_def
      invoke_def world_google_def cacheTranslation_def map_size_def Let_def)

lemma fast_run_plain:
  "translationCache_fast (fold exec_fast [Initialize load_plain, Translate_fast int ''hola'' ''es'' ''en'']
      FastTranslationHelper_new) =
   [(''hola|es|en'',
     \<lparr> result = \<lparr> originalText = ''hola'', translatedText = ''hello'', pinyin = None, tones = None,
                  confidence = 0.7, provider = ''m2m100'', detectedLanguage = ''es'', timestamp = 2,
                  latency = 1, isSubtitle = True \<rparr>,
       accessCount = 1, lastAccessed = 3 \<rparr>)]"
  by (simp add: initialize_def load_plain_def FastTranslationHelper_new_def map_get_def marianModels_def
      translateText_fast_def after_model_def createTranslationResult_def cacheTranslation_fast_def
      cacheTranslation_with_def MAX_CACHE_SIZE_fast_def map_size_def score_or_def
      supportedLanguages_def or_else_def cacheKey_fast_def Let_def)

text \<open>
  C6, as amended. After any sequence of calls on a new dispatcher (\<open>TranslationHelper\<close>),
  every entry of its cache holds a result whose confidence is above 0.5. The fast helper
  has no such gate: after any sequence of calls, every entry of its cache holds an
  answer of MarianMT or M2M-100 (never the fallback result) whose confidence is not 0;
  it may be 0.5 or less.
\<close>

theorem cached_confidence:
  "(\<forall>e \<in> set (translationCache (fold exec calls TranslationHelper_new)). confidence (snd e) > 0.5) \<and>
   (\<forall>e \<in> set (translationCache_fast (fold exec_fast fcalls FastTranslationHelper_new)).
      (provider (result (snd e)) = ''marian'' \<or> provider (result (snd e)) = ''m2m100'') \<and>
      confidence (result (snd e)) \<noteq> 0)"
proof -
  have "list_all confident (map snd (translationCache TranslationHelper_new))"
    by (simp add: TranslationHelper_new_def)
  from run_confident [OF this, of calls]
  have "\<forall>e \<in> set (translationCache (fold exec calls TranslationHelper_new)). confident (snd e)"
    by (simp add: list_all_iff)
  then have dispatcher:
    "\<forall>e \<in> set (translationCache (fold exec calls TranslationHelper_new)). confidence (snd e) > 0.5"
    unfolding confident_def .
  have "list_all (\<lambda>e. from_model (result e)) (map snd (translationCache_fast FastTranslationHelper_new))"
    by (simp add: FastTranslationHelper_new_def)
  from run_fast_from_model [OF this, of fcalls]
  have "\<forall>e \<in> set (translationCache_fast (fold exec_fast fcalls FastTranslationHelper_new)).
      from_model (result (snd e))"
    by (simp add: list_all_iff)
  then have fast:
    "\<forall>e \<in> set (translationCache_fast (fold exec_fast fcalls FastTranslationHelper_new)).
      (provider (result (snd e)) = ''marian'' \<or> provider (result (snd e)) = ''m2m100'') \<and>
      confidence (result (snd e)) \<noteq> 0"
    unfolding from_model_def .
  from dispatcher fast show ?thesis by (rule conjI)
qed

theorem cached_confidence_witness:
  "translationCache (fold exec [Translate world_google ''hola'' None None] TranslationHelper_new) \<noteq> [] \<and>
   confidence (snd (hd (translationCache
      (fold exec [Translate world_google ''hola'' None None] TranslationHelper_new)))) > 0.5 \<and>
   translationCache_fast (fold exec_fast [Initialize load_plain, Translate_fast int ''hola'' ''es'' ''en'']
      FastTranslationHelper_new) \<noteq> [] \<and>
   provider (result (snd (hd (translationCache_fast
      (fold exec_fast [Initialize load_plain, Translate_fast int ''hola'' ''es'' ''en'']
         FastTranslationHelper_new))))) = ''m2m100'' \<and>
   confidence (result (snd (hd (translationCache_fast
      (fold exec_fast [Initialize load_plain, Translate_fast int ''hola'' ''es'' ''en'']
         FastTranslationHelper_new))))) \<noteq> 0"
proof -
  let ?c = "translationCache (fold exec [Translate world_google ''hola'' None None] TranslationHelper_new)"
  let ?f = "translationCache_fast (fold exec_fast [Initialize load_plain, Translate_fast int ''hola'' ''es'' ''en'']
      FastTranslationHelper_new)"
  have ne: "?c \<noteq> []" by (simp only: th_run_google) simp
  have nf: "?f \<noteq> []" by (simp only: fast_run_plain) simp
  have pf: "provider (result (snd (hd ?f))) = ''m2m100''" by (simp only: fast_run_plain) simp
  note t = cached_confidence [of "[Translate world_google ''hola'' None None]"
      "[Initialize load_plain, Translate_fast int ''hola'' ''es'' ''en'']"]
  from t ne have "confidence (snd (hd ?c)) > 0.5" using hd_in_set by blast
  moreover from t nf have "confidence (result (snd (hd ?f))) \<noteq> 0" using hd_in_set by blast
  ultimately show ?thesis using ne nf pf by blast
qed

text \<open>
  C6 as stated fails for the fast helper: when M2M-100 reports a score of 0.3, the
  translation is cached with confidence 0.3.
\<close>

theorem unconfident_entry_counterexample:
  "map (confidence \<circ> result \<circ> snd)
     (translationCache_fast (fold exec_fast [Initialize load_low, Translate_fast int ''hola'' ''es'' ''en'']
        FastTranslationHelper_new)) = [0.3] \<and>
   \<not> (0.3 :: real) > 0.5"
  by (simp only: fast_run_low) simp

subsection \<open>A repeated request\<close>

lemma after_model_cached:
  assumes "after_model clock s tx src tgt prov dflt out = (s1, r1)" "provider r1 \<noteq> ''cache''"
  shows "map_get (translationCache_fast s1) (cacheKey_fast tx src tgt) =
           Some \<lparr> result = r1, accessCount = 1, lastAccessed = clock 3 \<rparr>"
proof (cases out)
  case ModelThrows
  with assms show ?thesis
    by (auto simp: after_model_def createTranslationResult_def Let_def)
next
  case (ModelReturns tt sc)
  with assms(1) show ?thesis
    by (auto simp: after_model_def split_beta cacheTranslation_fast_def cacheTranslation_with_def
        Let_def map_get_def map_of_map_set)
qed

lemma first_call_caches:
  assumes "translateText_fast clock s tx src tgt = (s1, r1, tr1)" "provider r1 \<noteq> ''cache''"
  shows "map_get (translationCache_fast s1) (cacheKey_fast tx src tgt) =
           Some \<lparr> result = r1, accessCount = 1, lastAccessed = clock 3 \<rparr> \<and> tr1 \<noteq> []"
proof (cases "map_get (translationCache_fast s) (cacheKey_fast tx src tgt)")
  case (Some cached)
  with assms show ?thesis by (auto simp: translateText_fast_def Let_def)
next
  case None
  show ?thesis
  proof (cases "map_get (marianTranslators s) (src @ ''-'' @ tgt)")
    case (Some marian)
    with None assms after_model_cached [of clock s tx src tgt "''marian''" "0.8" "marian tx" s1 r1]
    show ?thesis by (auto simp: translateText_fast_def Let_def split: prod.splits)
  next
    case noMarian: None
    show ?thesis
    proof (cases "m2m100Translator s")
      case None': None
      with None noMarian assms show ?thesis
        by (auto simp: translateText_fast_def Let_def createTranslationResult_def)
    next
      case (Some m2m)
      with None noMarian assms
        after_model_cached [of clock s tx src tgt "''m2m100''" "0.7"
          "m2m tx (or_else (map_get supportedLanguages src) src)
                  (or_else (map_get supportedLanguages tgt) tgt)" s1 r1]
      show ?thesis by (auto simp: translateText_fast_def Let_def split: prod.splits)
    qed
  qed
qed

lemma fast_hit:
  assumes "map_get (translationCache_fast s) (cacheKey_fast tx src tgt) = Some cached"
  shows "translateText_fast clock s tx src tgt =
     (s\<lparr> translationCache_fast :=
           map_set (cacheKey_fast tx src tgt)
             (cached\<lparr> accessCount := accessCount cached + 1, lastAccessed := clock 1 \<rparr>)
             (translationCache_fast s),
         performanceStats :=
           (performanceStats s)\<lparr> cacheHits := cacheHits (performanceStats s) + 1 \<rparr> \<rparr>,
      (result cached)\<lparr> latency := clock 2 - clock 0, provider := ''cache'' \<rparr>,
      [])"
  using assms by (simp add: translateText_fast_def Let_def)

lemma first_call_caches_th:
  assumes "translateText w s tx tgt src = (s1, r1, tr1)" "tr1 \<noteq> []" "confidence r1 > 0.5"
  shows "map_get (translationCache s1) (cacheKey tx (target_or_en tgt) src) = Some r1"
proof (cases "map_get (translationCache s) (cacheKey tx (target_or_en tgt) src)")
  case (Some r)
  with assms show ?thesis by (simp add: translateText_hit)
next
  case None
  obtain res tr k where t: "try_providers w tx (target_or_en tgt) src (sort_key priority (providers s)) 0
      = (res, tr, k)" by (metis prod_cases3)
  show ?thesis
  proof (cases res)
    case None': None
    with t assms show ?thesis by (auto simp: translateText_miss [OF None] fallback_def)
  next
    case (Some r)
    with t assms show ?thesis
      by (auto simp: translateText_miss [OF None] get_after_cacheTranslation)
  qed
qed

lemma th_first_google:
  "translateText world_google TranslationHelper_new ''hola'' None None =
     (\<lparr> translationCache =
          [(''hola-en-auto'',
            \<lparr> originalText = ''hola'', translatedText = ''hello'', pinyin = None, tones = None,
              confidence = 0.7, provider = ''google'', detectedLanguage = ''unknown'', timestamp = 0 \<rparr>)],
        MAX_CACHE_SIZE = 1000,
        providers = providers TranslationHelper_new \<rparr>,
      \<lparr> originalText = ''hola'', translatedText = ''hello'', pinyin = None, tones = None,
        confidence = 0.7, provider = ''google'', detectedLanguage = ''unknown'', timestamp = 0 \<rparr>,
      [''gemini'', ''google''])"
  by (simp add: translateText_def TranslationHelper_new_def map_get_def cacheKey_def or_else_def
      invoke_def world_google_def cacheTranslation_def map_size_def Let_def)

lemma fast_first_plain:
  "translateText_fast int (initialize load_plain FastTranslationHelper_new) ''hola'' ''es'' ''en'' =
     (fold exec_fast [Initialize load_plain, Translate_fast int ''hola'' ''es'' ''en'']
        FastTranslationHelper_new,
      \<lparr> originalText = ''hola'', translatedText = ''hello'', pinyin = None, tones = None,
        confidence = 0.7, provider = ''m2m100'', detectedLanguage = ''es'', timestamp = 2,
        latency = 1, isSubtitle = True \<rparr>,
      [''m2m100''])"
  by (simp add: initialize_def load_plain_def FastTranslationHelper_new_def map_get_def marianModels_def
      translateText_fast_def after_model_def createTranslationResult_def cacheTranslation_fast_def
      cacheTranslation_with_def MAX_CACHE_SIZE_fast_def map_size_def score_or_def
      supportedLanguages_def or_else_def cacheKey_fast_def Let_def)

text \<open>
  C1, as amended. Fast helper: when a call of \<open>translateText\<close> returns the answer \<open>r1\<close> of
  a model (its provider tag is not \<open>cache\<close>), \<open>r1\<close> is in the cache with \<open>accessCount\<close> 1,
  and a second call with the same three arguments invokes no model, returns \<open>r1\<close> with
  the provider tag \<open>cache\<close> and the latency of the lookup, adds 1 to \<open>cacheHits\<close>, and sets
  the entry's \<open>accessCount\<close> to 2 and its \<open>lastAccessed\<close> to the current time.
  Dispatcher: when a call of \<open>translateText\<close> returns a provider's result \<open>q1\<close> with
  confidence above 0.5, a second call with the same arguments invokes no provider and
  returns \<open>q1\<close> itself, with the tag of the provider that produced it, and leaves the
  helper as it is; the dispatcher keeps no hit counter and no access metadata.
\<close>

theorem second_call_from_cache:
  "(translateText_fast clock s tx src tgt = (s1, r1, tr1) \<and> provider r1 \<noteq> ''cache'' \<longrightarrow>
      map_get (translationCache_fast s1) (cacheKey_fast tx src tgt) =
        Some \<lparr> result = r1, accessCount = 1, lastAccessed = clock 3 \<rparr> \<and>
      translateText_fast clock2 s1 tx src tgt =
        (s1\<lparr> translationCache_fast :=
              map_set (cacheKey_fast tx src tgt)
                \<lparr> result = r1, accessCount = 2, lastAccessed = clock2 1 \<rparr>
                (translationCache_fast s1),
            performanceStats :=
              (performanceStats s1)\<lparr> cacheHits := cacheHits (performanceStats s1) + 1 \<rparr> \<rparr>,
         r1\<lparr> latency := clock2 2 - clock2 0, provider := ''cache'' \<rparr>,
         [])) \<and>
   (translateText w h tx' tgt' src' = (h1, q1, trace1) \<and> trace1 \<noteq> [] \<and> confidence q1 > 0.5 \<longrightarrow>
      translateText w2 h1 tx' tgt' src' = (h1, q1, []))"
proof (intro conjI impI)
  assume a: "translateText_fast clock s tx src tgt = (s1, r1, tr1) \<and> provider r1 \<noteq> ''cache''"
  then have g: "map_get (translationCache_fast s1) (cacheKey_fast tx src tgt) =
        Some \<lparr> result = r1, accessCount = 1, lastAccessed = clock 3 \<rparr>"
    using first_call_caches by blast
  then show "map_get (translationCache_fast s1) (cacheKey_fast tx src tgt) =
        Some \<lparr> result = r1, accessCount = 1, lastAccessed = clock 3 \<rparr>" .
  show "translateText_fast clock2 s1 tx src tgt =
        (s1\<lparr> translationCache_fast :=
              map_set (cacheKey_fast tx src tgt)
                \<lparr> result = r1, accessCount = 2, lastAccessed = clock2 1 \<rparr>
                (translationCache_fast s1),
            performanceStats :=
              (performanceStats s1)\<lparr> cacheHits := cacheHits (performanceStats s1) + 1 \<rparr> \<rparr>,
         r1\<lparr> latency := clock2 2 - clock2 0, provider := ''cache'' \<rparr>,
         [])"
    by (simp add: fast_hit [OF g] numeral_2_eq_2)
next
  assume "translateText w h tx' tgt' src' = (h1, q1, trace1) \<and> trace1 \<noteq> [] \<and> confidence q1 > 0.5"
  then have "map_get (translationCache h1) (cacheKey tx' (target_or_en tgt') src') = Some q1"
    using first_call_caches_th by blast
  then show "translateText w2 h1 tx' tgt' src' = (h1, q1, [])"
    by (rule translateText_hit)
qed


theorem second_call_from_cache_witness:
  "provider (fst (snd (translateText_fast int (initialize load_plain FastTranslationHelper_new)
       ''hola'' ''es'' ''en''))) \<noteq> ''cache'' \<and>
   provider (fst (snd (translateText_fast int
       (fst (translateText_fast int (initialize load_plain FastTranslationHelper_new) ''hola'' ''es'' ''en''))
       ''hola'' ''es'' ''en''))) = ''cache'' \<and>
   snd (snd (translateText_fast int
       (fst (translateText_fast int (initialize load_plain FastTranslationHelper_new) ''hola'' ''es'' ''en''))
       ''hola'' ''es'' ''en'')) = [] \<and>
   snd (snd (translateText world_google TranslationHelper_new ''hola'' None None)) \<noteq> [] \<and>
   confidence (fst (snd (translateText world_google TranslationHelper_new ''hola'' None None))) > 0.5 \<and>
   snd (translateText world_down
       (fst (translateText world_google TranslationHelper_new ''hola'' None None)) ''hola'' None None) =
     (fst (snd (translateText world_google TranslationHelper_new ''hola'' None None)), [])"
proof -
  let ?s0 = "initialize load_plain FastTranslationHelper_new"
  obtain s1 r1 tr1 where f: "translateText_fast int ?s0 ''hola'' ''es'' ''en'' = (s1, r1, tr1)"
    by (metis prod_cases3)
  with fast_first_plain have p: "provider r1 \<noteq> ''cache''" by auto
  obtain h1 q1 trace1 where t: "translateText world_google TranslationHelper_new ''hola'' None None =
      (h1, q1, trace1)" by (metis prod_cases3)
  with th_first_google have q: "trace1 \<noteq> []" "confidence q1 > 0.5" by auto
  from second_call_from_cache [of int ?s0 "''hola''" "''es''" "''en''" s1 r1 tr1 int
      world_google TranslationHelper_new "''hola''" None None h1 q1 trace1 world_down] f p t q
  have "translateText_fast int s1 ''hola'' ''es'' ''en'' =
        (s1\<lparr> translationCache_fast :=
              map_set (cacheKey_fast ''hola'' ''es'' ''en'')
                \<lparr> result = r1, accessCount = 2, lastAccessed = int 1 \<rparr>
                (translationCache_fast s1),
            performanceStats :=
              (performanceStats s1)\<lparr> cacheHits := cacheHits (performanceStats s1) + 1 \<rparr> \<rparr>,
         r1\<lparr> latency := int 2 - int 0, provider := ''cache'' \<rparr>,
         [])"
    and "translateText world_down h1 ''hola'' None None = (h1, q1, [])"
    by blast+
  with f p t q show ?thesis by simp
qed

text \<open>
  C1 as stated fails for the dispatcher: after Google's translation (confidence 0.7) was
  cached, the second identical call invokes no provider and returns a result whose
  provider tag is \<open>google\<close>, not \<open>cache\<close>.
\<close>

theorem cached_provider_tag_counterexample:
  "snd (snd (translateText world_google TranslationHelper_new ''hola'' None None)) = [''gemini'', ''google''] \<and>
   confidence (fst (snd (translateText world_google TranslationHelper_new ''hola'' None None))) > 0.5 \<and>
   snd (snd (translateText world_google
       (fst (translateText world_google TranslationHelper_new ''hola'' None None)) ''hola'' None None)) = [] \<and>
   provider (fst (snd (translateText world_google
       (fst (translateText world_google TranslationHelper_new ''hola'' None None)) ''hola'' None None)))
     \<noteq> ''cache''"
  by (simp add: th_first_google) (simp add: translateText_def map_get_def cacheKey_def or_else_def)


subsection \<open>The classification of a capitalised sentence\<close>

lemma hello_world_units:
  "str ''Hello, world!'' = [72, 101, 108, 108, 111, 44, 32, 119, 111, 114, 108, 100, 33]"
  by (simp add: str_def)

lemma hello_world_first_rule:
  "test_full (seqs [Chars upper, Chars lower, Star dot, one_of ''.!?'']) (str ''Hello, world!'')"
  by (simp add: hello_world_units test_full_def upper_def lower_def dot_def one_of_def)

lemma hello_world_detect:
  "detectSubtitlePattern (str ''Hello, world!'') =
     \<lparr> isSubtitle_pattern = True, subtitleType = Dialogue, confidence_pattern = 0.9 \<rparr>"
  using hello_world_first_rule by (simp add: detectSubtitlePattern_def subtitlePatterns_def)

lemma hello_world_heuristic: "hasSubtitleCharacteristics (str ''Hello, world!'')"
  by (simp add: hello_world_units hasSubtitleCharacteristics_def test_full_def test_prefix_def
      test_suffix_def one_of_def lit_def Opt_def Many1_def any_def digit_def space_def)

lemma lower_case_units:
  "str ''hello, world!'' = [104, 101, 108, 108, 111, 44, 32, 119, 111, 114, 108, 100, 33]"
  by (simp add: str_def)

lemma lower_case_no_rule:
  "find (\<lambda>(type, patterns). list_ex (\<lambda>pattern. test_full pattern (str ''hello, world!'')) patterns)
     subtitlePatterns = None"
  by (simp add: lower_case_units subtitlePatterns_def test_full_def upper_def lower_def dot_def
      one_of_def none_of_def lit_def lit_i_def Opt_def Many1_def space_def)

lemma lower_case_heuristic: "hasSubtitleCharacteristics (str ''hello, world!'')"
  by (simp add: lower_case_units hasSubtitleCharacteristics_def test_full_def test_prefix_def
      test_suffix_def one_of_def lit_def Opt_def Many1_def any_def digit_def space_def)

lemma lower_case_detect:
  "detectSubtitlePattern (str ''hello, world!'') =
     \<lparr> isSubtitle_pattern = True, subtitleType = Unknown, confidence_pattern = 0.6 \<rparr>"
  by (simp add: detectSubtitlePattern_def lower_case_no_rule lower_case_heuristic)

text \<open>
  C8, as amended. The string \<open>Hello, world!\<close> has length 13 and matches the first dialogue
  pattern (a capital letter, a small letter, any characters, terminal punctuation), so
  it is classified as a subtitle of category dialogue with confidence 0.9; the heuristic
  fallback, whose conditions it also meets, is not reached. The string \<open>hello, world!\<close>
  matches no pattern and gets category unknown with confidence 0.6 from the fallback.
\<close>

theorem hello_world_classified:
  "length (str ''Hello, world!'') = 13 \<and>
   test_full (seqs [Chars upper, Chars lower, Star dot, one_of ''.!?'']) (str ''Hello, world!'') \<and>
   detectSubtitlePattern (str ''Hello, world!'') =
     \<lparr> isSubtitle_pattern = True, subtitleType = Dialogue, confidence_pattern = 0.9 \<rparr> \<and>
   hasSubtitleCharacteristics (str ''Hello, world!'') \<and>
   detectSubtitlePattern (str ''hello, world!'') =
     \<lparr> isSubtitle_pattern = True, subtitleType = Unknown, confidence_pattern = 0.6 \<rparr>"
  using hello_world_first_rule hello_world_detect hello_world_heuristic lower_case_detect
  by (simp add: str_def)

text \<open>
  C8 as stated fails: the classification of \<open>Hello, world!\<close> is not
  (subtitle, unknown, 0.6); its category is dialogue and its confidence 0.9.
\<close>

theorem hello_world_unknown_counterexample:
  "detectSubtitlePattern (str ''Hello, world!'') \<noteq>
     \<lparr> isSubtitle_pattern = True, subtitleType = Unknown, confidence_pattern = 0.6 \<rparr> \<and>
   subtitleType (detectSubtitlePattern (str ''Hello, world!'')) = Dialogue \<and>
   confidence_pattern (detectSubtitlePattern (str ''Hello, world!'')) = 0.9"
  by (simp add: hello_world_detect)

subsection \<open>Checks in flight\<close>

lemma callbacks_notify [simp]: "callbacks (notifyRegionChange ev k s) = callbacks s"
  by (simp add: notifyRegionChange_def)

lemma next_active_notify [simp]: "next_active (notifyRegionChange ev k s) i = next_active s i"
  by (simp add: notifyRegionChange_def next_active_def)

lemma length_check_returns: "length (callbacks (check_returns n s)) \<le> length (callbacks s)"
  by (auto simp: check_returns_def split: option.splits prod.splits)

lemma length_set_stage: "length (callbacks (set_stage n st s)) = length (callbacks s)"
  by (simp add: set_stage_def)

lemma length_capture_done: "length (callbacks (capture_done n b s)) \<le> length (callbacks s)"
  by (simp add: capture_done_def length_check_returns length_set_stage)

lemma length_hash_done: "length (callbacks (hash_done n h s)) \<le> length (callbacks s)"
  by (simp add: hash_done_def Let_def length_check_returns length_set_stage split: option.splits)

lemma length_save_done: "length (callbacks (save_done n b s)) \<le> length (callbacks s)"
  using length_check_returns [of n "notifyRegionChange ''region-changed'' (checked_region (callbacks s ! n)) s"]
  by (simp add: save_done_def length_check_returns)

lemma length_tick: "length (callbacks (tick s)) \<le> Suc (length (callbacks s))"
  by (simp add: tick_def split: option.splits prod.splits)

lemma length_other:
  "e \<noteq> Tick \<Longrightarrow> length (callbacks (apply_event e s)) \<le> length (callbacks s)"
  by (cases e)
     (simp_all add: length_capture_done length_hash_done length_save_done startMonitoring_def
        stopMonitoring_def toggleRegionMonitoring_def deleteRegion_def handleSelectionCompleted_def
        Let_def split: option.splits)

lemma ticks_apart_one:
  "length (callbacks s) \<le> 1 \<Longrightarrow> ticks_apart es s \<Longrightarrow>
     length (callbacks (fold apply_event es s)) \<le> 1"
proof (induction es arbitrary: s)
  case Nil
  then show ?case by simp
next
  case (Cons e es)
  have "length (callbacks (apply_event e s)) \<le> 1"
  proof (cases "e = Tick")
    case True
    with Cons.prems(2) have "callbacks s = []" by simp
    with True length_tick [of s] show ?thesis by simp
  next
    case False
    from length_other [OF False, of s] Cons.prems(1) show ?thesis by linarith
  qed
  moreover from Cons.prems(2) have "ticks_apart es (apply_event e s)" by simp
  ultimately show ?case using Cons.IH by simp
qed

lemma in_flight_le: "checks_in_flight k s \<le> length (callbacks s)"
  by (simp add: checks_in_flight_def)

lemma tick_starts_check:
  assumes "monitoringInterval s \<noteq> None" "next_active s 0 = Some (i, k)"
  shows "checks_in_flight k (apply_event Tick s) = checks_in_flight k s + 1"
  using assms by (auto simp: tick_def checks_in_flight_def)

lemma one_region_ticking_eval:
  "monitoringInterval one_region_ticking = Some 0"
  "next_active one_region_ticking 0 = Some (0, ''r1'')"
  "callbacks one_region_ticking = [\<lparr> pos = 0, checked_region = ''r1'', stage = Capturing \<rparr>]"
  by (simp_all add: one_region_ticking_def AreaSelectionHelper_new_def handleSelectionCompleted_def
      toggleRegionMonitoring_def regions_get_def regions_has_def startMonitoring_def
      notifyRegionChange_def tick_def next_active_def Let_def)

text \<open>
  C3, as amended. The loop has no state or guard that keeps a region from being checked
  twice at once: whenever the timer fires while monitoring is on, a check of the first
  active region starts, and the number of its checks in flight grows by one. At most one
  check is in flight, for every region, in the runs in which the timer fires only when
  no earlier callback is still suspended (every tick's checks finish within the
  interval).
\<close>

theorem checks_in_flight_unguarded:
  "(monitoringInterval s \<noteq> None \<and> next_active s 0 = Some (i, k) \<longrightarrow>
      checks_in_flight k (apply_event Tick s) = checks_in_flight k s + 1) \<and>
   (callbacks s0 = [] \<and> ticks_apart es s0 \<longrightarrow>
      checks_in_flight k' (fold apply_event es s0) \<le> 1)"
proof (intro conjI impI)
  assume "monitoringInterval s \<noteq> None \<and> next_active s 0 = Some (i, k)"
  then show "checks_in_flight k (apply_event Tick s) = checks_in_flight k s + 1"
    using tick_starts_check by blast
next
  assume a: "callbacks s0 = [] \<and> ticks_apart es s0"
  then have "length (callbacks (fold apply_event es s0)) \<le> 1"
    using ticks_apart_one [of s0 es] by simp
  with in_flight_le [of k' "fold apply_event es s0"]
  show "checks_in_flight k' (fold apply_event es s0) \<le> 1" by linarith
qed

theorem checks_in_flight_unguarded_witness:
  "monitoringInterval one_region_ticking \<noteq> None \<and>
   next_active one_region_ticking 0 = Some (0, ''r1'') \<and>
   checks_in_flight ''r1'' one_region_ticking = 1 \<and>
   checks_in_flight ''r1'' (apply_event Tick one_region_ticking) = 2 \<and>
   callbacks AreaSelectionHelper_new = [] \<and>
   ticks_apart
     [SelectionCompleted ''r1'' 0 0 100 50 1, ToggleRegionMonitoring ''r1'', Tick,
      CaptureDone 0 False, Tick] AreaSelectionHelper_new \<and>
   checks_in_flight ''r1''
     (fold apply_event
        [SelectionCompleted ''r1'' 0 0 100 50 1, ToggleRegionMonitoring ''r1'', Tick,
         CaptureDone 0 False, Tick] AreaSelectionHelper_new) \<le> 1"
proof -
  let ?es = "[SelectionCompleted ''r1'' 0 0 100 50 1, ToggleRegionMonitoring ''r1'', Tick,
      CaptureDone 0 False, Tick]"
  have m: "monitoringInterval one_region_ticking \<noteq> None"
    and n: "next_active one_region_ticking 0 = Some (0, ''r1'')"
    by (simp_all add: one_region_ticking_eval)
  have one: "checks_in_flight ''r1'' one_region_ticking = 1"
    by (simp add: checks_in_flight_def one_region_ticking_eval)
  have c: "callbacks AreaSelectionHelper_new = []" by (simp add: AreaSelectionHelper_new_def)
  have t: "ticks_apart ?es AreaSelectionHelper_new"
    by (simp add: AreaSelectionHelper_new_def handleSelectionCompleted_def
      toggleRegionMonitoring_def regions_get_def regions_has_def startMonitoring_def
      notifyRegionChange_def tick_def next_active_def Let_def capture_done_def at_stage_def
      check_returns_def)
  note th = checks_in_flight_unguarded [of one_region_ticking 0 "''r1''" AreaSelectionHelper_new ?es "''r1''"]
  from th m n have "checks_in_flight ''r1'' (apply_event Tick one_region_ticking) =
      checks_in_flight ''r1'' one_region_ticking + 1" by blast
  with one have two: "checks_in_flight ''r1'' (apply_event Tick one_region_ticking) = 2" by simp
  from th c t have "checks_in_flight ''r1'' (fold apply_event ?es AreaSelectionHelper_new) \<le> 1"
    by blast
  with m n one two c t show ?thesis by blast
qed

text \<open>
  C3 as stated fails: when the timer fires twice before the capture of the first check
  completes, two checks of the same region are in flight.
\<close>

theorem overlapping_checks_counterexample:
  "checks_in_flight ''r1''
     (fold apply_event
        [SelectionCompleted ''r1'' 0 0 100 50 1, ToggleRegionMonitoring ''r1'', Tick, Tick]
        AreaSelectionHelper_new) = 2 \<and>
   \<not> checks_in_flight ''r1''
     (fold apply_event
        [SelectionCompleted ''r1'' 0 0 100 50 1, ToggleRegionMonitoring ''r1'', Tick, Tick]
        AreaSelectionHelper_new) \<le> 1"
proof -
  have "fold apply_event
        [SelectionCompleted ''r1'' 0 0 100 50 1, ToggleRegionMonitoring ''r1'', Tick, Tick]
        AreaSelectionHelper_new = apply_event Tick one_region_ticking"
    by (simp add: one_region_ticking_def)
  moreover have "checks_in_flight ''r1'' (apply_event Tick one_region_ticking) = 2"
    using tick_starts_check [of one_region_ticking 0 "''r1''"]
    by (simp add: one_region_ticking_eval checks_in_flight_def)
  ultimately show ?thesis by simp
qed


subsection \<open>The dispatcher's cache at capacity\<close>

lemma map_set_fresh: "k \<notin> set (map fst m) \<Longrightarrow> map_set k v m = m @ [(k, v)]"
  by (induction m) auto

lemma th_filled_miss:
  "map_get (translationCache (th_filled n)) (cacheKey (sample_text n) (target_or_en None) None) = None"
proof -
  have "cacheKey (sample_text n) ''en'' None \<notin> set (map_keys (translationCache (th_filled n)))"
    unfolding th_filled_keys by (auto simp: cacheKey_def dest: sample_text_inj)
  then show ?thesis
    by (simp add: map_get_def map_keys_def target_or_en_def map_of_eq_None_iff)
qed

lemma th_filled_sorted: "sorted_providers (th_filled n) = th_filled n"
  by (simp add: sorted_providers_def th_filled_def TranslationHelper_new_def)

lemma try_sample:
  "try_providers world_sample (sample_text n) ''en'' None (providers (th_filled n)) 0 =
     (Some (sample_result n), [''gemini'', ''google''], 0)"
  by (simp add: th_filled_def TranslationHelper_new_def invoke_def world_sample_def
      sample_result_def sample_text_def)

lemma th_filled_step:
  assumes "n < 1000"
  shows "exec (Translate world_sample (sample_text n) None None) (th_filled n) = th_filled (Suc n)"
proof -
  have sp: "sort_key priority (providers (th_filled n)) = providers (th_filled n)"
    by (simp add: th_filled_def TranslationHelper_new_def)
  have fresh: "cacheKey (sample_text n) ''en'' None \<notin> set (map fst (translationCache (th_filled n)))"
    using th_filled_keys [of n] by (auto simp: map_keys_def cacheKey_def dest: sample_text_inj)
  have "exec (Translate world_sample (sample_text n) None None) (th_filled n) =
      cacheTranslation (cacheKey (sample_text n) ''en'' None) (sample_result n) (th_filled n)"
    using try_sample [of n]
    by (simp add: translateText_miss [OF th_filled_miss] sp th_filled_sorted target_or_en_def)
  also have "\<dots> = th_filled (Suc n)"
    using assms map_set_fresh [OF fresh, of "sample_result n"]
    by (simp add: cacheTranslation_def th_filled_size th_filled_max) (simp add: th_filled_def)
  finally show ?thesis .
qed

lemma th_filled_reachable:
  "n \<le> 1000 \<Longrightarrow> fold exec (sample_calls n) TranslationHelper_new = th_filled n"
proof (induction n)
  case 0
  then show ?case by (simp add: sample_calls_def th_filled_def TranslationHelper_new_def)
next
  case (Suc n)
  then have "fold exec (sample_calls n) TranslationHelper_new = th_filled n" by simp
  moreover have "sample_calls (Suc n) = sample_calls n @ [Translate world_sample (sample_text n) None None]"
    by (simp add: sample_calls_def)
  moreover from Suc.prems have "n < 1000" by simp
  ultimately show ?case using th_filled_step [of n] by simp
qed

text \<open>
  C4 as stated fails for the dispatcher's cache: after 1000 translations of distinct
  texts it holds 1000 entries (its capacity), and the insertion of a new key leaves 1000
  entries, not \<open>1000 - 200 + 1\<close>.
\<close>

theorem single_eviction_counterexample:
  "fold exec (sample_calls 1000) TranslationHelper_new = th_filled 1000 \<and>
   MAX_CACHE_SIZE (th_filled 1000) \<le> map_size (translationCache (th_filled 1000)) \<and>
   map_size (translationCache
      (cacheTranslation (cacheKey ''hola'' ''en'' None) hola_result (th_filled 1000))) \<noteq>
     map_size (translationCache (th_filled 1000))
       - nat \<lfloor>real (MAX_CACHE_SIZE (th_filled 1000)) * 0.2\<rfloor> + 1 \<and>
   map_size (translationCache
      (cacheTranslation (cacheKey ''hola'' ''en'' None) hola_result (th_filled 1000))) = 1000"
proof -
  let ?k = "cacheKey ''hola'' ''en'' None"
  have cap: "MAX_CACHE_SIZE (th_filled 1000) \<le> map_size (translationCache (th_filled 1000))"
    by (simp add: th_filled_size th_filled_max)
  have res: "translationCache (cacheTranslation ?k hola_result (th_filled 1000)) =
      map_set ?k hola_result (tl (translationCache (th_filled 1000)))"
    by (rule cacheTranslation_at_capacity [OF th_filled_distinct cap])
  have "?k \<notin> set (map fst (tl (translationCache (th_filled 1000))))"
    using hola_not_in_th_filled [of 1000]
    by (metis list.set_sel(2) map_keys_def map_tl tl_Nil)
  then have size: "map_size (translationCache (cacheTranslation ?k hola_result (th_filled 1000))) = 1000"
    unfolding res map_size_def length_map_set
    using th_filled_size [of 1000] by (simp add: map_size_def)
  have "nat \<lfloor>real (MAX_CACHE_SIZE (th_filled 1000)) * 0.2\<rfloor> = 200"
    by (simp only: floor_fifth th_filled_max)
  with size cap th_filled_reachable [of 1000] show ?thesis by (simp add: th_filled_size)
qed

end
